theory Spec2Isabelle
  imports Main "HOL-Library.Char_ord" "HOL-Library.Monad_Syntax" "HOL-Library.Sublist"
begin

section \<open>Strings and numbers as the Go code uses them\<close>

text \<open>
  Go strings are byte sequences; a \<^typ>\<open>string\<close> is a list of 8-bit characters.
  \<open>strings.ToUpper\<close> is modelled on ASCII bytes (every byte the lexer puts into an
  identifier or keyword is ASCII); other bytes are left as they are.
\<close>

definition upper_byte :: "char \<Rightarrow> char" where
  "upper_byte c =
     (if CHR ''a'' \<le> c \<and> c \<le> CHR ''z'' then char_of (of_char c - (32::nat)) else c)"

definition ToUpper :: "string \<Rightarrow> string" where
  "ToUpper s = map upper_byte s"

text \<open>The verb \<open>%d\<close> of \<open>fmt.Sprintf\<close>: decimal digits, a minus sign for negatives.\<close>

fun digits10 :: "nat \<Rightarrow> string" where
  "digits10 n =
     (if n < 10 then [''0123456789'' ! n]
      else digits10 (n div 10) @ [''0123456789'' ! (n mod 10)])"

declare digits10.simps [simp del]

definition fmt_d :: "int \<Rightarrow> string" where
  "fmt_d i = (if i < 0 then CHR ''-'' # digits10 (nat (- i)) else digits10 (nat i))"


section \<open>The AST (package parser, ast.go)\<close>

text \<open>
  The node kinds that implement \<open>Expression\<close>. A node is modelled by its \<open>Value\<close>;
  the \<open>Token\<close> field (type, literal and source position of the token the node was built
  from) is not part of the model. An \<open>IntegerLiteral\<close> holds the int64 that
  \<open>strconv.ParseInt\<close> returned. A \<open>FloatLiteral\<close> holds the literal text its float64
  was parsed from: binary floating point is outside the model, and the \<open>%f\<close>
  rendering of that float64 is the parameter \<open>fmtFloat\<close> of the functions below.
\<close>

datatype Expression =
    Identifier string
  | StringLiteral string
  | IntegerLiteral int
  | FloatLiteral string
  | KeywordExpression string
  | PatternExpression string
  | RangeExpression Expression Expression
  | OptionExpression Expression "Expression option"

text \<open>\<open>Command\<close> is the \<open>Value\<close> of the command's \<open>Identifier\<close> node.\<close>

record RedisCommand =
  Command :: string
  Arguments :: "Expression list"

fun expr_Type :: "Expression \<Rightarrow> string" where
  "expr_Type (Identifier v) = ''Identifier''"
| "expr_Type (StringLiteral v) = ''StringLiteral''"
| "expr_Type (IntegerLiteral v) = ''IntegerLiteral''"
| "expr_Type (FloatLiteral v) = ''FloatLiteral''"
| "expr_Type (KeywordExpression v) = ''KeywordExpression''"
| "expr_Type (PatternExpression v) = ''PatternExpression''"
| "expr_Type (RangeExpression s e) = ''RangeExpression''"
| "expr_Type (OptionExpression opt v) = ''OptionExpression''"

fun expr_String :: "(string \<Rightarrow> string) \<Rightarrow> Expression \<Rightarrow> string" where
  "expr_String fmtFloat (Identifier v) = v"
| "expr_String fmtFloat (StringLiteral v) = ''\"'' @ v @ ''\"''"
| "expr_String fmtFloat (IntegerLiteral v) = fmt_d v"
| "expr_String fmtFloat (FloatLiteral v) = fmtFloat v"
| "expr_String fmtFloat (KeywordExpression v) = v"
| "expr_String fmtFloat (PatternExpression v) = v"
| "expr_String fmtFloat (RangeExpression s e) =
     ''['' @ expr_String fmtFloat s @ '', '' @ expr_String fmtFloat e @ '']''"
| "expr_String fmtFloat (OptionExpression opt None) = expr_String fmtFloat opt"
| "expr_String fmtFloat (OptionExpression opt (Some v)) =
     expr_String fmtFloat opt @ '' '' @ expr_String fmtFloat v"

text \<open>
  \<open>RedisCommand.String\<close>: the arguments joined by single spaces, after the command
  name and one space (also when there is no argument).
\<close>

fun join_args :: "(string \<Rightarrow> string) \<Rightarrow> Expression list \<Rightarrow> string" where
  "join_args fmtFloat [] = []"
| "join_args fmtFloat [a] = expr_String fmtFloat a"
| "join_args fmtFloat (a # b # bs) =
     expr_String fmtFloat a @ '' '' @ join_args fmtFloat (b # bs)"

definition cmd_String :: "(string \<Rightarrow> string) \<Rightarrow> RedisCommand \<Rightarrow> string" where
  "cmd_String fmtFloat rc = Command rc @ '' '' @ join_args fmtFloat (Arguments rc)"


section \<open>The semantic analyzer (package semantic, analyzer.go)\<close>

record SemanticError =
  Message :: string
  err_Command :: string
  err_Position :: int
  err_Type :: string

datatype InfoValue = InfoString string | InfoBool bool

record ValidationResult =
  Valid :: bool
  Errors :: "SemanticError list"
  Warnings :: "string list"
  CommandInfo :: "string \<rightharpoonup> InfoValue"

record OptionSpec =
  HasValue :: bool
  ValueType :: string
  opt_Description :: string
  Conflicts :: "string list"

record CommandSpec =
  Name :: string
  MinArgs :: int
  MaxArgs :: int
  KeyPosition :: int
  ValueTypes :: "string list"
  Options :: "string \<rightharpoonup> OptionSpec"
  Description :: string

record Analyzer =
  commands :: "string \<rightharpoonup> CommandSpec"

definition initializeCommands :: "string \<rightharpoonup> CommandSpec" where
  "initializeCommands = map_of
    [(''GET'', \<lparr>Name = ''GET'', MinArgs = 1, MaxArgs = 1, KeyPosition = 0,
        ValueTypes = [''key''], Options = Map.empty,
        Description = ''Get the value of a key''\<rparr>),
     (''SET'', \<lparr>Name = ''SET'', MinArgs = 2, MaxArgs = - 1, KeyPosition = 0,
        ValueTypes = [''key'', ''value''],
        Options = map_of
          [(''EX'', \<lparr>HasValue = True, ValueType = ''integer'',
              opt_Description = ''Set expiry in seconds'', Conflicts = []\<rparr>),
           (''PX'', \<lparr>HasValue = True, ValueType = ''integer'',
              opt_Description = ''Set expiry in milliseconds'', Conflicts = [''EX'']\<rparr>),
           (''NX'', \<lparr>HasValue = False, ValueType = [],
              opt_Description = ''Only set if key doesn't exist'', Conflicts = [''XX'']\<rparr>),
           (''XX'', \<lparr>HasValue = False, ValueType = [],
              opt_Description = ''Only set if key exists'', Conflicts = [''NX'']\<rparr>)],
        Description = ''Set the string value of a key''\<rparr>),
     (''DEL'', \<lparr>Name = ''DEL'', MinArgs = 1, MaxArgs = - 1, KeyPosition = 0,
        ValueTypes = [''key''], Options = Map.empty,
        Description = ''Delete one or more keys''\<rparr>),
     (''HGET'', \<lparr>Name = ''HGET'', MinArgs = 2, MaxArgs = 2, KeyPosition = 0,
        ValueTypes = [''key'', ''field''], Options = Map.empty,
        Description = ''Get the value of a hash field''\<rparr>),
     (''HSET'', \<lparr>Name = ''HSET'', MinArgs = 3, MaxArgs = - 1, KeyPosition = 0,
        ValueTypes = [''key'', ''field'', ''value''], Options = Map.empty,
        Description = ''Set the string value of a hash field''\<rparr>),
     (''ZADD'', \<lparr>Name = ''ZADD'', MinArgs = 3, MaxArgs = - 1, KeyPosition = 0,
        ValueTypes = [''key'', ''score'', ''member''],
        Options = map_of
          [(''NX'', \<lparr>HasValue = False, ValueType = [],
              opt_Description = ''Only add new elements'', Conflicts = [''XX'']\<rparr>),
           (''XX'', \<lparr>HasValue = False, ValueType = [],
              opt_Description = ''Only update existing elements'', Conflicts = [''NX'']\<rparr>)],
        Description = ''Add one or more members to a sorted set''\<rparr>),
     (''ZRANGE'', \<lparr>Name = ''ZRANGE'', MinArgs = 3, MaxArgs = - 1, KeyPosition = 0,
        ValueTypes = [''key'', ''start'', ''stop''],
        Options = map_of
          [(''WITHSCORES'', \<lparr>HasValue = False, ValueType = [],
              opt_Description = ''Return scores along with members'', Conflicts = []\<rparr>)],
        Description = ''Return a range of members in a sorted set''\<rparr>),
     (''SCAN'', \<lparr>Name = ''SCAN'', MinArgs = 1, MaxArgs = - 1, KeyPosition = - 1,
        ValueTypes = [''cursor''],
        Options = map_of
          [(''MATCH'', \<lparr>HasValue = True, ValueType = ''pattern'',
              opt_Description = ''Match pattern'', Conflicts = []\<rparr>),
           (''COUNT'', \<lparr>HasValue = True, ValueType = ''integer'',
              opt_Description = ''Number of elements to return'', Conflicts = []\<rparr>),
           (''TYPE'', \<lparr>HasValue = True, ValueType = ''string'',
              opt_Description = ''Filter by type'', Conflicts = []\<rparr>)],
        Description = ''Incrementally iterate over keys''\<rparr>)]"

definition New_Analyzer :: Analyzer where
  "New_Analyzer = \<lparr>commands = initializeCommands\<rparr>"

text \<open>
  \<open>result.Errors = append(result.Errors, SemanticError{...}); result.Valid = false\<close>,
  the pair of statements every failed check of the analyzer runs. \<open>Position\<close> is never
  set by the code and keeps Go's zero value.
\<close>

definition addSemanticError ::
    "string \<Rightarrow> string \<Rightarrow> string \<Rightarrow> ValidationResult \<Rightarrow> ValidationResult" where
  "addSemanticError msg cmdName kind result =
     result\<lparr>Errors := Errors result @
               [\<lparr>Message = msg, err_Command = cmdName, err_Position = 0, err_Type = kind\<rparr>],
            Valid := False\<rparr>"

definition addWarning :: "string \<Rightarrow> ValidationResult \<Rightarrow> ValidationResult" where
  "addWarning msg result = result\<lparr>Warnings := Warnings result @ [msg]\<rparr>"

text \<open>
  The error every failed case of the \<open>switch expectedType\<close> appends, with its
  message \<open>fmt.Sprintf("Argument %d should be <what>, got %s", i+1, actualType)\<close>.
\<close>

definition typeMismatch ::
    "RedisCommand \<Rightarrow> nat \<Rightarrow> string \<Rightarrow> string \<Rightarrow> ValidationResult \<Rightarrow> ValidationResult" where
  "typeMismatch cmd i what actualType result =
     addSemanticError
       (''Argument '' @ fmt_d (int i + 1) @ '' should be '' @ what @ '', got '' @ actualType)
       (Command cmd) ''TYPE_MISMATCH'' result"

text \<open>The \<open>switch expectedType\<close> of \<open>validateArgumentTypes\<close>, for the argument at index \<open>i\<close>.\<close>

definition checkArgumentType ::
    "RedisCommand \<Rightarrow> string \<Rightarrow> string \<Rightarrow> nat \<Rightarrow> ValidationResult \<Rightarrow> ValidationResult" where
  "checkArgumentType cmd expectedType actualType i result =
     (if expectedType = ''key'' then
        (if actualType \<noteq> ''Identifier'' \<and> actualType \<noteq> ''StringLiteral''
            \<and> actualType \<noteq> ''PatternExpression''
         then typeMismatch cmd i ''a key (identifier or string)'' actualType result
         else result)
      else if expectedType = ''value'' then result
      else if expectedType = ''field'' then
        (if actualType \<noteq> ''Identifier'' \<and> actualType \<noteq> ''StringLiteral''
         then typeMismatch cmd i ''a field name'' actualType result
         else result)
      else if expectedType = ''score'' then
        (if actualType \<noteq> ''IntegerLiteral'' \<and> actualType \<noteq> ''FloatLiteral''
         then typeMismatch cmd i ''a numeric score'' actualType result
         else result)
      else if expectedType = ''member'' then
        (if actualType \<noteq> ''Identifier'' \<and> actualType \<noteq> ''StringLiteral''
         then typeMismatch cmd i ''a member name'' actualType result
         else result)
      else if expectedType = ''cursor'' then
        (if actualType \<noteq> ''IntegerLiteral''
         then typeMismatch cmd i ''a cursor (integer)'' actualType result
         else result)
      else if expectedType = ''start'' \<or> expectedType = ''stop'' then
        (if actualType \<noteq> ''IntegerLiteral''
         then typeMismatch cmd i ''an index (integer)'' actualType result
         else result)
      else result)"

text \<open>
  \<open>validateArgumentTypes\<close>: the \<open>for i, arg := range cmd.Arguments\<close> loop, from
  index \<open>i\<close> on, with its \<open>break\<close> at the end of \<open>spec.ValueTypes\<close>.
\<close>

function validateArgumentTypes_from ::
    "RedisCommand \<Rightarrow> CommandSpec \<Rightarrow> nat \<Rightarrow> ValidationResult \<Rightarrow> ValidationResult" where
  "validateArgumentTypes_from cmd spec i result =
     (if \<not> i < length (Arguments cmd) then result
      else if i \<ge> length (ValueTypes spec) then result
      else validateArgumentTypes_from cmd spec (i + 1)
             (checkArgumentType cmd (ValueTypes spec ! i)
                (expr_Type (Arguments cmd ! i)) i result))"
  by pat_completeness auto
termination
  by (relation "measure (\<lambda>(cmd, spec, i, result). length (Arguments cmd) - i)") auto

declare validateArgumentTypes_from.simps [simp del]

definition validateArgumentTypes ::
    "RedisCommand \<Rightarrow> CommandSpec \<Rightarrow> ValidationResult \<Rightarrow> ValidationResult" where
  "validateArgumentTypes cmd spec result = validateArgumentTypes_from cmd spec 0 result"

text \<open>
  \<open>validateOptionValue\<close>. The command name of its errors is read from
  \<open>result.CommandInfo["name"]\<close>, with \<open>"unknown"\<close> when the entry is missing or is
  not a string.
\<close>

definition validateOptionValue ::
    "string \<Rightarrow> OptionSpec \<Rightarrow> Expression \<Rightarrow> ValidationResult \<Rightarrow> ValidationResult" where
  "validateOptionValue optionName spec val result =
     (let valueType = expr_Type val;
          commandName = (case CommandInfo result ''name'' of
                           Some (InfoString nameStr) \<Rightarrow> nameStr
                         | _ \<Rightarrow> ''unknown'')
      in if ValueType spec = ''integer'' then
           (if valueType \<noteq> ''IntegerLiteral'' then
              addSemanticError
                (''Option '' @ [CHR 0x27] @ optionName @ [CHR 0x27]
                   @ '' expects an integer value, got '' @ valueType)
                commandName ''OPTION_TYPE_MISMATCH'' result
            else
              (case val of
                 IntegerLiteral v \<Rightarrow>
                   (if optionName = ''EX'' \<or> optionName = ''PX'' then
                      (if v \<le> 0 then
                         addSemanticError
                           (''Expiration time must be positive, got '' @ fmt_d v)
                           commandName ''INVALID_VALUE_RANGE'' result
                       else result)
                    else result)
               | _ \<Rightarrow> result))
         else if ValueType spec = ''pattern'' then
           (if valueType \<noteq> ''PatternExpression'' \<and> valueType \<noteq> ''StringLiteral''
               \<and> valueType \<noteq> ''Identifier''
            then addWarning
                   (''Option '' @ [CHR 0x27] @ optionName @ [CHR 0x27]
                      @ '' expects a pattern, got '' @ valueType) result
            else result)
         else if ValueType spec = ''string'' then
           (if valueType \<noteq> ''StringLiteral'' \<and> valueType \<noteq> ''Identifier''
            then addWarning
                   (''Option '' @ [CHR 0x27] @ optionName @ [CHR 0x27]
                      @ '' expects a string, got '' @ valueType) result
            else result)
         else result)"

text \<open>
  The inner loop of \<open>validateOptions\<close> over \<open>optionSpec.Conflicts\<close>: one
  \<open>OPTION_CONFLICT\<close> error for each listed option that was already used.
\<close>

fun checkConflicts ::
    "RedisCommand \<Rightarrow> string \<Rightarrow> (string \<Rightarrow> bool) \<Rightarrow> string list \<Rightarrow> ValidationResult
       \<Rightarrow> ValidationResult" where
  "checkConflicts cmd optionName usedOptions [] result = result"
| "checkConflicts cmd optionName usedOptions (conflict # rest) result =
     checkConflicts cmd optionName usedOptions rest
       (if usedOptions conflict then
          addSemanticError
            (''Option '' @ [CHR 0x27] @ optionName @ [CHR 0x27] @ '' conflicts with ''
               @ [CHR 0x27] @ conflict @ [CHR 0x27])
            (Command cmd) ''OPTION_CONFLICT'' result
        else result)"

text \<open>
  The body of the loop \<open>for i := 0; i < len(cmd.Arguments); i++\<close> of
  \<open>validateOptions\<close>, run at index \<open>i\<close>: it returns the loop variable (the body's own
  \<open>i++\<close> skips an option's value), the map \<open>usedOptions\<close> and the result.
  \<open>usedOptions\<close> is the Go map \<open>map[string]bool\<close>, whose missing keys read as
  \<open>false\<close>.
\<close>

definition validateOptions_body ::
    "(string \<Rightarrow> string) \<Rightarrow> RedisCommand \<Rightarrow> CommandSpec \<Rightarrow> nat \<Rightarrow> (string \<Rightarrow> bool)
       \<Rightarrow> ValidationResult \<Rightarrow> nat \<times> (string \<Rightarrow> bool) \<times> ValidationResult" where
  "validateOptions_body fmtFloat cmd spec i usedOptions result =
     (let arg = Arguments cmd ! i in
      if expr_Type arg = ''KeywordExpression'' then
        (let optionName = ToUpper (expr_String fmtFloat arg) in
         case Options spec optionName of
           None \<Rightarrow>
             (i, usedOptions,
              addWarning
                (''Unknown option '' @ [CHR 0x27] @ optionName @ [CHR 0x27]
                   @ '' for command '' @ Command cmd) result)
         | Some optionSpec \<Rightarrow>
             (let result1 = checkConflicts cmd optionName usedOptions
                              (Conflicts optionSpec) result;
                  usedOptions1 = usedOptions(optionName := True)
              in if HasValue optionSpec then
                   (if i + 1 \<ge> length (Arguments cmd) then
                      (i, usedOptions1,
                       addSemanticError
                         (''Option '' @ [CHR 0x27] @ optionName @ [CHR 0x27]
                            @ '' requires a value'')
                         (Command cmd) ''MISSING_OPTION_VALUE'' result1)
                    else
                      (i + 1, usedOptions1,
                       validateOptionValue optionName optionSpec
                         (Arguments cmd ! (i + 1)) result1))
                 else (i, usedOptions1, result1)))
      else (i, usedOptions, result))"

lemma validateOptions_body_index:
  "fst (validateOptions_body fmtFloat cmd spec i usedOptions result) = i
   \<or> fst (validateOptions_body fmtFloat cmd spec i usedOptions result) = i + 1"
  by (simp add: validateOptions_body_def Let_def split: option.split)

text \<open>The loop of \<open>validateOptions\<close> from index \<open>i\<close> on.\<close>

function validateOptions_from ::
    "(string \<Rightarrow> string) \<Rightarrow> RedisCommand \<Rightarrow> CommandSpec \<Rightarrow> nat \<Rightarrow> (string \<Rightarrow> bool)
       \<Rightarrow> ValidationResult \<Rightarrow> ValidationResult" where
  "validateOptions_from fmtFloat cmd spec i usedOptions result =
     (if \<not> i < length (Arguments cmd) then result
      else
        case validateOptions_body fmtFloat cmd spec i usedOptions result of
          (i', usedOptions', result') \<Rightarrow>
            validateOptions_from fmtFloat cmd spec (i' + 1) usedOptions' result')"
  by pat_completeness auto
termination
  apply (relation "measure (\<lambda>(f, cmd, spec, i, used, result). length (Arguments cmd) - i)")
   apply simp
  subgoal for fmtFloat cmd spec i usedOptions result
    using validateOptions_body_index[of fmtFloat cmd spec i usedOptions result]
    by (cases "validateOptions_body fmtFloat cmd spec i usedOptions result") auto
  done

declare validateOptions_from.simps [simp del]

text \<open>
  The indices at which that loop runs its body, in order: the positions the option scan
  reaches. It is the same loop, recording \<open>i\<close> at the head of every iteration.
\<close>

function validateOptions_trace ::
    "(string \<Rightarrow> string) \<Rightarrow> RedisCommand \<Rightarrow> CommandSpec \<Rightarrow> nat \<Rightarrow> (string \<Rightarrow> bool)
       \<Rightarrow> ValidationResult \<Rightarrow> nat list" where
  "validateOptions_trace fmtFloat cmd spec i usedOptions result =
     (if \<not> i < length (Arguments cmd) then []
      else
        case validateOptions_body fmtFloat cmd spec i usedOptions result of
          (i', usedOptions', result') \<Rightarrow>
            i # validateOptions_trace fmtFloat cmd spec (i' + 1) usedOptions' result')"
  by pat_completeness auto
termination
  apply (relation "measure (\<lambda>(f, cmd, spec, i, used, result). length (Arguments cmd) - i)")
   apply simp
  subgoal for fmtFloat cmd spec i usedOptions result
    using validateOptions_body_index[of fmtFloat cmd spec i usedOptions result]
    by (cases "validateOptions_body fmtFloat cmd spec i usedOptions result") auto
  done

declare validateOptions_trace.simps [simp del]

definition validateOptions ::
    "(string \<Rightarrow> string) \<Rightarrow> RedisCommand \<Rightarrow> CommandSpec \<Rightarrow> ValidationResult
       \<Rightarrow> ValidationResult" where
  "validateOptions fmtFloat cmd spec result =
     validateOptions_from fmtFloat cmd spec 0 (\<lambda>name. False) result"

definition ValidateCommand ::
    "(string \<Rightarrow> string) \<Rightarrow> Analyzer \<Rightarrow> RedisCommand \<Rightarrow> ValidationResult" where
  "ValidateCommand fmtFloat a cmd =
     (let result = \<lparr>Valid = True, Errors = [], Warnings = [], CommandInfo = Map.empty\<rparr>;
          commandName = ToUpper (Command cmd)
      in case commands a commandName of
           None \<Rightarrow>
             addSemanticError (''Unknown command: '' @ commandName) commandName
               ''UNKNOWN_COMMAND'' result
         | Some spec \<Rightarrow>
             (let argCount = int (length (Arguments cmd));
                  result1 =
                    (if argCount < MinArgs spec then
                       addSemanticError
                         (''Too few arguments. Expected at least '' @ fmt_d (MinArgs spec)
                            @ '', got '' @ fmt_d argCount)
                         commandName ''INSUFFICIENT_ARGS'' result
                     else result);
                  result2 =
                    (if MaxArgs spec \<noteq> - 1 \<and> argCount > MaxArgs spec then
                       addSemanticError
                         (''Too many arguments. Expected at most '' @ fmt_d (MaxArgs spec)
                            @ '', got '' @ fmt_d argCount)
                         commandName ''EXCESSIVE_ARGS'' result1
                     else result1);
                  result3 = validateArgumentTypes cmd spec result2;
                  result4 = validateOptions fmtFloat cmd spec result3;
                  info = (CommandInfo result4)
                           (''name'' \<mapsto> InfoString commandName,
                            ''description'' \<mapsto> InfoString (Description spec),
                            ''has_key'' \<mapsto> InfoBool (KeyPosition spec \<ge> 0));
                  info1 =
                    (if KeyPosition spec \<ge> 0
                        \<and> KeyPosition spec < int (length (Arguments cmd))
                     then info(''key'' \<mapsto>
                            InfoString (expr_String fmtFloat
                                          (Arguments cmd ! nat (KeyPosition spec))))
                     else info)
              in result4\<lparr>CommandInfo := info1\<rparr>))"

lemma addSemanticError_fields [simp]:
  "Errors (addSemanticError m c k r) =
     Errors r @ [\<lparr>Message = m, err_Command = c, err_Position = 0, err_Type = k\<rparr>]"
  "Valid (addSemanticError m c k r) = False"
  "Warnings (addSemanticError m c k r) = Warnings r"
  "CommandInfo (addSemanticError m c k r) = CommandInfo r"
  by (simp_all add: addSemanticError_def)

lemma addWarning_fields [simp]:
  "Errors (addWarning m r) = Errors r"
  "Valid (addWarning m r) = Valid r"
  "Warnings (addWarning m r) = Warnings r @ [m]"
  "CommandInfo (addWarning m r) = CommandInfo r"
  by (simp_all add: addWarning_def)


section \<open>Properties of the analyzer\<close>

subsection \<open>Positional type check\<close>

text \<open>
  The node kinds each value category accepts, as the specification lists them: key
  accepts identifier, string or pattern; field and member accept identifier or string;
  value accepts anything; score accepts integer or float; cursor, start and stop accept
  only integer. A category name outside this list constrains nothing.
\<close>

definition category_accepts :: "string \<Rightarrow> string \<Rightarrow> bool" where
  "category_accepts category kind =
     (if category = ''key'' then
        kind = ''Identifier'' \<or> kind = ''StringLiteral'' \<or> kind = ''PatternExpression''
      else if category = ''field'' \<or> category = ''member'' then
        kind = ''Identifier'' \<or> kind = ''StringLiteral''
      else if category = ''value'' then True
      else if category = ''score'' then kind = ''IntegerLiteral'' \<or> kind = ''FloatLiteral''
      else if category = ''cursor'' \<or> category = ''start'' \<or> category = ''stop'' then
        kind = ''IntegerLiteral''
      else True)"

lemma category_cases:
  obtains "cat = ''key''" | "cat = ''value''" | "cat = ''field''" | "cat = ''score''"
    | "cat = ''member''" | "cat = ''cursor''" | "cat = ''start''" | "cat = ''stop''"
    | "cat \<notin> {''key'', ''value'', ''field'', ''score'', ''member'', ''cursor'', ''start'', ''stop''}"
  by auto

text \<open>
  \<open>names_argument cmd e i\<close>: \<open>e\<close> is a \<open>TYPE_MISMATCH\<close> error of command \<open>cmd\<close> whose
  message is about argument number \<open>i + 1\<close>.
\<close>

definition names_argument :: "RedisCommand \<Rightarrow> SemanticError \<Rightarrow> nat \<Rightarrow> bool" where
  "names_argument cmd e i =
     (err_Type e = ''TYPE_MISMATCH'' \<and> err_Command e = Command cmd
      \<and> prefix (''Argument '' @ fmt_d (int i + 1) @ '' should be '') (Message e))"

lemma checkArgumentType_accepts:
  "category_accepts cat kind \<Longrightarrow> checkArgumentType cmd cat kind i r = r"
  unfolding category_accepts_def checkArgumentType_def
  by (cases cat rule: category_cases) auto

lemma checkArgumentType_rejects:
  "\<not> category_accepts cat kind \<Longrightarrow>
   \<exists>what. checkArgumentType cmd cat kind i r = typeMismatch cmd i what kind r"
  unfolding category_accepts_def checkArgumentType_def
  by (cases cat rule: category_cases) auto


lemma typeMismatch_fields [simp]:
  "Errors (typeMismatch cmd i what kind r) =
     Errors r @ [\<lparr>Message = ''Argument '' @ fmt_d (int i + 1) @ '' should be '' @ what
                            @ '', got '' @ kind,
                 err_Command = Command cmd, err_Position = 0, err_Type = ''TYPE_MISMATCH''\<rparr>]"
  "Valid (typeMismatch cmd i what kind r) = False"
  "Warnings (typeMismatch cmd i what kind r) = Warnings r"
  "CommandInfo (typeMismatch cmd i what kind r) = CommandInfo r"
  by (simp_all add: typeMismatch_def)

text \<open>The indices from \<open>i\<close> on that have a declared category which rejects the argument.\<close>

definition mismatches :: "RedisCommand \<Rightarrow> CommandSpec \<Rightarrow> nat \<Rightarrow> nat list" where
  "mismatches cmd spec i =
     filter (\<lambda>j. \<not> category_accepts (ValueTypes spec ! j) (expr_Type (Arguments cmd ! j)))
       [i ..< min (length (Arguments cmd)) (length (ValueTypes spec))]"

lemma mismatches_end:
  "\<not> i < length (Arguments cmd) \<or> length (ValueTypes spec) \<le> i \<Longrightarrow> mismatches cmd spec i = []"
  by (auto simp: mismatches_def)

lemma mismatches_step:
  "i < length (Arguments cmd) \<Longrightarrow> i < length (ValueTypes spec) \<Longrightarrow>
   mismatches cmd spec i =
     (if category_accepts (ValueTypes spec ! i) (expr_Type (Arguments cmd ! i)) then []
      else [i]) @ mismatches cmd spec (Suc i)"
  by (simp add: mismatches_def upt_conv_Cons)

lemma names_argument_typeMismatch:
  "names_argument cmd
     \<lparr>Message = ''Argument '' @ fmt_d (int i + 1) @ '' should be '' @ what @ '', got '' @ kind,
      err_Command = Command cmd, err_Position = 0, err_Type = ''TYPE_MISMATCH''\<rparr> i"
  by (simp add: names_argument_def)


lemma checkArgumentType_spec:
  "\<exists>es. Errors (checkArgumentType cmd cat kind i r) = Errors r @ es
     \<and> list_all2 (names_argument cmd) es (if category_accepts cat kind then [] else [i])
     \<and> Warnings (checkArgumentType cmd cat kind i r) = Warnings r
     \<and> CommandInfo (checkArgumentType cmd cat kind i r) = CommandInfo r
     \<and> Valid (checkArgumentType cmd cat kind i r) = (Valid r \<and> category_accepts cat kind)"
proof (cases "category_accepts cat kind")
  case True
  then show ?thesis by (simp add: checkArgumentType_accepts)
next
  case False
  then obtain what where "checkArgumentType cmd cat kind i r = typeMismatch cmd i what kind r"
    using checkArgumentType_rejects by blast
  with False show ?thesis by (simp add: names_argument_def)
qed

lemma validateArgumentTypes_from_spec:
  "\<exists>es. Errors (validateArgumentTypes_from cmd spec i r) = Errors r @ es
     \<and> list_all2 (names_argument cmd) es (mismatches cmd spec i)
     \<and> Warnings (validateArgumentTypes_from cmd spec i r) = Warnings r
     \<and> CommandInfo (validateArgumentTypes_from cmd spec i r) = CommandInfo r
     \<and> Valid (validateArgumentTypes_from cmd spec i r) = (Valid r \<and> mismatches cmd spec i = [])"
proof (induction cmd spec i r rule: validateArgumentTypes_from.induct)
  case (1 cmd spec i r)
  show ?case
  proof (cases "i < length (Arguments cmd) \<and> i < length (ValueTypes spec)")
    case False
    then have "validateArgumentTypes_from cmd spec i r = r"
      by (subst validateArgumentTypes_from.simps) auto
    moreover from False have "mismatches cmd spec i = []"
      by (intro mismatches_end) auto
    ultimately show ?thesis by simp
  next
    case True
    define r1 where "r1 = checkArgumentType cmd (ValueTypes spec ! i)
                            (expr_Type (Arguments cmd ! i)) i r"
    from True have unfold: "validateArgumentTypes_from cmd spec i r =
        validateArgumentTypes_from cmd spec (i + 1) r1"
      by (subst validateArgumentTypes_from.simps) (simp add: r1_def)
    obtain es1 where es1: "Errors r1 = Errors r @ es1"
        "list_all2 (names_argument cmd) es1
           (if category_accepts (ValueTypes spec ! i) (expr_Type (Arguments cmd ! i))
            then [] else [i])"
        "Warnings r1 = Warnings r" "CommandInfo r1 = CommandInfo r"
        "Valid r1 = (Valid r \<and> category_accepts (ValueTypes spec ! i)
                                  (expr_Type (Arguments cmd ! i)))"
      unfolding r1_def using checkArgumentType_spec by blast
    from True have "\<not> \<not> i < length (Arguments cmd)" "\<not> length (ValueTypes spec) \<le> i"
      by auto
    from "1.IH"[OF this, folded r1_def]
    obtain es2 where es2:
        "Errors (validateArgumentTypes_from cmd spec (i + 1) r1) = Errors r1 @ es2"
        "list_all2 (names_argument cmd) es2 (mismatches cmd spec (i + 1))"
        "Warnings (validateArgumentTypes_from cmd spec (i + 1) r1) = Warnings r1"
        "CommandInfo (validateArgumentTypes_from cmd spec (i + 1) r1) = CommandInfo r1"
        "Valid (validateArgumentTypes_from cmd spec (i + 1) r1) =
           (Valid r1 \<and> mismatches cmd spec (i + 1) = [])"
      unfolding r1_def by blast
    have step: "mismatches cmd spec i =
        (if category_accepts (ValueTypes spec ! i) (expr_Type (Arguments cmd ! i)) then []
         else [i]) @ mismatches cmd spec (i + 1)"
      using True mismatches_step by simp
    have "list_all2 (names_argument cmd) (es1 @ es2) (mismatches cmd spec i)"
      unfolding step using es1(2) es2(2) by (rule list_all2_appendI)
    moreover have "Errors (validateArgumentTypes_from cmd spec i r) = Errors r @ (es1 @ es2)"
      using unfold es1(1) es2(1) by simp
    moreover have "Valid (validateArgumentTypes_from cmd spec i r) =
        (Valid r \<and> mismatches cmd spec i = [])"
      unfolding unfold es2(5) es1(5) step by auto
    ultimately show ?thesis
      using unfold es1(3,4) es2(3,4) by (intro exI[of _ "es1 @ es2"]) simp
  qed
qed

subsection \<open>The option scan\<close>

text \<open>
  What the option scan can append to \<open>Errors\<close> when \<open>CommandInfo\<close> has no \<open>"name"\<close>
  entry: conflicts and missing values, and value errors filed under \<open>"unknown"\<close>.
\<close>

definition option_phase_error :: "SemanticError \<Rightarrow> bool" where
  "option_phase_error e =
     (err_Type e = ''OPTION_CONFLICT'' \<or> err_Type e = ''MISSING_OPTION_VALUE''
      \<or> (err_Type e = ''OPTION_TYPE_MISMATCH'' \<or> err_Type e = ''INVALID_VALUE_RANGE'')
         \<and> err_Command e = ''unknown'')"

text \<open>
  \<open>extends_with P r r'\<close>: \<open>r'\<close> has the errors of \<open>r\<close> followed by errors that satisfy
  \<open>P\<close>, and the same \<open>CommandInfo\<close>.
\<close>

definition extends_with ::
    "(SemanticError \<Rightarrow> bool) \<Rightarrow> ValidationResult \<Rightarrow> ValidationResult \<Rightarrow> bool" where
  "extends_with P r r' =
     ((\<exists>es. Errors r' = Errors r @ es \<and> list_all P es) \<and> CommandInfo r' = CommandInfo r)"

lemma extends_with_refl [simp]: "extends_with P r r"
  by (simp add: extends_with_def)

lemma extends_with_trans:
  "extends_with P r r1 \<Longrightarrow> extends_with P r1 r2 \<Longrightarrow> extends_with P r r2"
  by (auto simp: extends_with_def)

lemma extends_with_addSemanticError:
  "P \<lparr>Message = m, err_Command = c, err_Position = 0, err_Type = k\<rparr> \<Longrightarrow>
   extends_with P r (addSemanticError m c k r)"
  by (simp add: extends_with_def)

lemma extends_with_addWarning [simp]: "extends_with P r (addWarning m r)"
  by (simp add: extends_with_def)

lemma extends_with_CommandInfo: "extends_with P r r' \<Longrightarrow> CommandInfo r' = CommandInfo r"
  by (simp add: extends_with_def)

lemma extends_with_mono: "extends_with P r r' \<Longrightarrow> set (Errors r) \<subseteq> set (Errors r')"
  by (auto simp: extends_with_def)


lemma checkConflicts_extends:
  "extends_with option_phase_error r (checkConflicts cmd n used cs r)"
proof (induction cs arbitrary: r)
  case Nil
  then show ?case by simp
next
  case (Cons c cs)
  define r1 where "r1 = (if used c then addSemanticError
             (''Option '' @ [CHR 0x27] @ n @ [CHR 0x27] @ '' conflicts with ''
                @ [CHR 0x27] @ c @ [CHR 0x27]) (Command cmd) ''OPTION_CONFLICT'' r else r)"
  have e1: "extends_with option_phase_error r r1"
    unfolding r1_def by (simp add: extends_with_addSemanticError option_phase_error_def)
  have "checkConflicts cmd n used (c # cs) r = checkConflicts cmd n used cs r1"
    unfolding r1_def by simp
  moreover have "extends_with option_phase_error r1 (checkConflicts cmd n used cs r1)"
    by (rule Cons.IH)
  ultimately show ?case
    using e1 extends_with_trans by simp
qed


text \<open>The command name \<open>validateOptionValue\<close> reads from \<open>CommandInfo\<close>.\<close>

definition infoName :: "ValidationResult \<Rightarrow> string" where
  "infoName r = (case CommandInfo r ''name'' of Some (InfoString nameStr) \<Rightarrow> nameStr
                 | _ \<Rightarrow> ''unknown'')"

lemma validateOptionValue_cases:
  "validateOptionValue n os v r = r
   \<or> (\<exists>m. validateOptionValue n os v r = addWarning m r)
   \<or> (\<exists>m. validateOptionValue n os v r =
            addSemanticError m (infoName r) ''OPTION_TYPE_MISMATCH'' r)
   \<or> (\<exists>m. validateOptionValue n os v r =
            addSemanticError m (infoName r) ''INVALID_VALUE_RANGE'' r)"
  unfolding validateOptionValue_def Let_def infoName_def
  by (cases v) auto


lemma validateOptionValue_extends:
  assumes "CommandInfo r ''name'' = None"
  shows "extends_with option_phase_error r (validateOptionValue n os v r)"
proof -
  have "infoName r = ''unknown''" using assms by (simp add: infoName_def)
  then show ?thesis
    using validateOptionValue_cases[of n os v r]
    by (auto simp: extends_with_addSemanticError option_phase_error_def)
qed

lemma expr_Type_Keyword:
  "(expr_Type a = ''KeywordExpression'') = (\<exists>v. a = KeywordExpression v)"
  by (cases a) simp_all

lemma validateOptions_body_cases:
  obtains
    (skip) "\<forall>v. Arguments cmd ! i \<noteq> KeywordExpression v"
      "validateOptions_body f cmd spec i used r = (i, used, r)"
  | (unknown) v m where "Arguments cmd ! i = KeywordExpression v"
      "Options spec (ToUpper v) = None"
      "validateOptions_body f cmd spec i used r = (i, used, addWarning m r)"
  | (missing) v os m where "Arguments cmd ! i = KeywordExpression v"
      "Options spec (ToUpper v) = Some os" "HasValue os" "length (Arguments cmd) \<le> i + 1"
      "validateOptions_body f cmd spec i used r =
         (i, used(ToUpper v := True),
          addSemanticError m (Command cmd) ''MISSING_OPTION_VALUE''
            (checkConflicts cmd (ToUpper v) used (Conflicts os) r))"
  | (valued) v os where "Arguments cmd ! i = KeywordExpression v"
      "Options spec (ToUpper v) = Some os" "HasValue os" "i + 1 < length (Arguments cmd)"
      "validateOptions_body f cmd spec i used r =
         (i + 1, used(ToUpper v := True),
          validateOptionValue (ToUpper v) os (Arguments cmd ! (i + 1))
            (checkConflicts cmd (ToUpper v) used (Conflicts os) r))"
  | (flag) v os where "Arguments cmd ! i = KeywordExpression v"
      "Options spec (ToUpper v) = Some os" "\<not> HasValue os"
      "validateOptions_body f cmd spec i used r =
         (i, used(ToUpper v := True),
          checkConflicts cmd (ToUpper v) used (Conflicts os) r)"
proof (cases "expr_Type (Arguments cmd ! i) = ''KeywordExpression''")
  case False
  then have "validateOptions_body f cmd spec i used r = (i, used, r)"
    by (simp add: validateOptions_body_def)
  with False skip show ?thesis by (simp add: expr_Type_Keyword)
next
  case True
  then obtain v where v: "Arguments cmd ! i = KeywordExpression v"
    by (auto simp: expr_Type_Keyword)
  show ?thesis
  proof (cases "Options spec (ToUpper v)")
    case None
    with v unknown show ?thesis by (simp add: validateOptions_body_def)
  next
    case (Some os)
    show ?thesis
    proof (cases "HasValue os")
      case False
      with v Some flag show ?thesis by (simp add: validateOptions_body_def Let_def)
    next
      case hv: True
      show ?thesis
      proof (cases "i + 1 < length (Arguments cmd)")
        case True
        with v Some hv valued show ?thesis by (simp add: validateOptions_body_def Let_def)
      next
        case False
        with v Some hv missing show ?thesis by (simp add: validateOptions_body_def Let_def)
      qed
    qed
  qed
qed


lemma validateOptions_body_extends:
  assumes "CommandInfo r ''name'' = None"
  shows "extends_with option_phase_error r
           (snd (snd (validateOptions_body f cmd spec i used r)))"
proof -
  have cc: "extends_with option_phase_error r (checkConflicts cmd n used cs r)" for n cs
    by (rule checkConflicts_extends)
  have ci: "CommandInfo (checkConflicts cmd n used cs r) ''name'' = None" for n cs
    using extends_with_CommandInfo[OF cc] assms by simp
  show ?thesis
  proof (cases f cmd spec i used r rule: validateOptions_body_cases)
    case skip
    then show ?thesis by simp
  next
    case (unknown v m)
    then show ?thesis by simp
  next
    case (missing v os m)
    have "extends_with option_phase_error
            (checkConflicts cmd (ToUpper v) used (Conflicts os) r)
            (addSemanticError m (Command cmd) ''MISSING_OPTION_VALUE''
               (checkConflicts cmd (ToUpper v) used (Conflicts os) r))"
      by (rule extends_with_addSemanticError) (simp add: option_phase_error_def)
    from extends_with_trans[OF cc this] missing(5) show ?thesis by simp
  next
    case (valued v os)
    have "extends_with option_phase_error
            (checkConflicts cmd (ToUpper v) used (Conflicts os) r)
            (validateOptionValue (ToUpper v) os (Arguments cmd ! (i + 1))
               (checkConflicts cmd (ToUpper v) used (Conflicts os) r))"
      by (rule validateOptionValue_extends) (rule ci)
    from extends_with_trans[OF cc this] valued(5) show ?thesis by simp
  next
    case (flag v os)
    with cc show ?thesis by simp
  qed
qed

lemma validateOptions_from_extends:
  "CommandInfo r ''name'' = None \<Longrightarrow>
   extends_with option_phase_error r (validateOptions_from f cmd spec i used r)"
proof (induction f cmd spec i used r rule: validateOptions_from.induct)
  case (1 f cmd spec i used r)
  show ?case
  proof (cases "i < length (Arguments cmd)")
    case False
    then show ?thesis by (subst validateOptions_from.simps) simp
  next
    case True
    obtain i' used' r' where b: "validateOptions_body f cmd spec i used r = (i', used', r')"
      by (cases "validateOptions_body f cmd spec i used r") auto
    have e1: "extends_with option_phase_error r r'"
      using validateOptions_body_extends[OF "1.prems", of f cmd spec i used] b by simp
    then have "CommandInfo r' ''name'' = None"
      using "1.prems" by (simp add: extends_with_CommandInfo)
    with "1.IH"[OF _ b[symmetric] refl] True
    have "extends_with option_phase_error r' (validateOptions_from f cmd spec (i' + 1) used' r')"
      by simp
    with e1 have "extends_with option_phase_error r
                    (validateOptions_from f cmd spec (i' + 1) used' r')"
      by (rule extends_with_trans)
    then show ?thesis
      using True b by (subst validateOptions_from.simps) simp
  qed
qed

subsection \<open>The result of \<open>ValidateCommand\<close>\<close>

text \<open>The kinds of the errors of the argument-count check, for \<open>n\<close> arguments.\<close>

definition count_error_types :: "CommandSpec \<Rightarrow> nat \<Rightarrow> string list" where
  "count_error_types spec n =
     (if int n < MinArgs spec then [''INSUFFICIENT_ARGS''] else [])
     @ (if MaxArgs spec \<noteq> - 1 \<and> int n > MaxArgs spec then [''EXCESSIVE_ARGS''] else [])"

lemma ValidateCommand_unknown:
  assumes "commands a (ToUpper (Command cmd)) = None"
  shows "ValidateCommand f a cmd =
           \<lparr>Valid = False,
            Errors = [\<lparr>Message = ''Unknown command: '' @ ToUpper (Command cmd),
                       err_Command = ToUpper (Command cmd), err_Position = 0,
                       err_Type = ''UNKNOWN_COMMAND''\<rparr>],
            Warnings = [], CommandInfo = Map.empty\<rparr>"
  using assms by (simp add: ValidateCommand_def Let_def addSemanticError_def)

lemma ValidateCommand_known:
  assumes "commands a (ToUpper (Command cmd)) = Some spec"
  shows "\<exists>ces tes oes.
           Errors (ValidateCommand f a cmd) = ces @ tes @ oes
           \<and> map err_Type ces = count_error_types spec (length (Arguments cmd))
           \<and> list_all2 (names_argument cmd) tes (mismatches cmd spec 0)
           \<and> list_all option_phase_error oes"
proof -
  define r0 where "r0 = \<lparr>Valid = True, Errors = [], Warnings = [], CommandInfo = Map.empty\<rparr>"
  define n where "n = int (length (Arguments cmd))"
  define r1 where "r1 = (if n < MinArgs spec then
                       addSemanticError
                         (''Too few arguments. Expected at least '' @ fmt_d (MinArgs spec)
                            @ '', got '' @ fmt_d n)
                         (ToUpper (Command cmd)) ''INSUFFICIENT_ARGS'' r0
                     else r0)"
  define r2 where "r2 = (if MaxArgs spec \<noteq> - 1 \<and> n > MaxArgs spec then
                       addSemanticError
                         (''Too many arguments. Expected at most '' @ fmt_d (MaxArgs spec)
                            @ '', got '' @ fmt_d n)
                         (ToUpper (Command cmd)) ''EXCESSIVE_ARGS'' r1
                     else r1)"
  define r3 where "r3 = validateArgumentTypes cmd spec r2"
  define r4 where "r4 = validateOptions f cmd spec r3"
  have E: "Errors (ValidateCommand f a cmd) = Errors r4"
    using assms
    by (simp add: ValidateCommand_def Let_def r4_def r3_def r2_def r1_def r0_def n_def)
  have c2: "map err_Type (Errors r2) = count_error_types spec (length (Arguments cmd))"
    by (simp add: r2_def r1_def r0_def count_error_types_def n_def)
  have i2: "CommandInfo r2 = Map.empty"
    by (simp add: r2_def r1_def r0_def)
  obtain tes where tes: "Errors r3 = Errors r2 @ tes"
      "list_all2 (names_argument cmd) tes (mismatches cmd spec 0)"
      "CommandInfo r3 = CommandInfo r2"
    unfolding r3_def validateArgumentTypes_def
    using validateArgumentTypes_from_spec[of cmd spec 0 r2] by blast
  have "CommandInfo r3 ''name'' = None" using tes(3) i2 by simp
  from validateOptions_from_extends[OF this, of f cmd spec 0 "\<lambda>name. False"]
  obtain oes where oes: "Errors r4 = Errors r3 @ oes" "list_all option_phase_error oes"
    unfolding r4_def validateOptions_def extends_with_def by blast
  show ?thesis
    using E c2 tes(1,2) oes by (intro exI[of _ "Errors r2"] exI[of _ tes] exI[of _ oes]) simp
qed

lemma count_error_types_simps:
  "''TYPE_MISMATCH'' \<notin> set (count_error_types spec n)"
  "''OPTION_TYPE_MISMATCH'' \<notin> set (count_error_types spec n)"
  "''INVALID_VALUE_RANGE'' \<notin> set (count_error_types spec n)"
  by (simp_all add: count_error_types_def)

lemma names_argument_type: "list_all2 (names_argument cmd) es xs \<Longrightarrow> e \<in> set es \<Longrightarrow>
  err_Type e = ''TYPE_MISMATCH''"
  by (auto simp: list_all2_conv_all_nth names_argument_def in_set_conv_nth)

lemma option_phase_error_type:
  "list_all option_phase_error es \<Longrightarrow> e \<in> set es \<Longrightarrow>
   err_Type e \<in> {''OPTION_CONFLICT'', ''MISSING_OPTION_VALUE'', ''OPTION_TYPE_MISMATCH'',
                  ''INVALID_VALUE_RANGE''}"
  by (auto simp: list_all_iff option_phase_error_def)

lemma filter_none: "(\<And>e. e \<in> set es \<Longrightarrow> \<not> P e) \<Longrightarrow> filter P es = []"
  by (induction es) auto

lemma filter_all: "(\<And>e. e \<in> set es \<Longrightarrow> P e) \<Longrightarrow> filter P es = es"
  by (induction es) auto

text \<open>
  C6. For a command with a specification, the \<open>TYPE_MISMATCH\<close> errors of the result are,
  in order, one for each index \<open>i\<close> below both the number of arguments and the length of
  the declared value-category list whose category does not accept the argument's node
  kind (\<open>category_accepts\<close>: key accepts identifier, string or pattern; field and member
  accept identifier or string; value accepts anything; score accepts integer or float;
  cursor, start and stop accept only integer). Every such mismatch is reported, so
  checking continues after a mismatch, and no index past the declared list is reported.
\<close>

theorem positional_type_check:
  assumes "commands a (ToUpper (Command cmd)) = Some spec"
  shows "list_all2 (names_argument cmd)
           (filter (\<lambda>e. err_Type e = ''TYPE_MISMATCH'') (Errors (ValidateCommand f a cmd)))
           (filter (\<lambda>i. \<not> category_accepts (ValueTypes spec ! i)
                                (expr_Type (Arguments cmd ! i)))
              [0 ..< min (length (Arguments cmd)) (length (ValueTypes spec))])"
proof -
  obtain ces tes oes where d:
      "Errors (ValidateCommand f a cmd) = ces @ tes @ oes"
      "map err_Type ces = count_error_types spec (length (Arguments cmd))"
      "list_all2 (names_argument cmd) tes (mismatches cmd spec 0)"
      "list_all option_phase_error oes"
    using ValidateCommand_known[OF assms] by blast
  have "filter (\<lambda>e. err_Type e = ''TYPE_MISMATCH'') ces = []"
  proof (rule filter_none)
    fix e assume "e \<in> set ces"
    then have "err_Type e \<in> set (count_error_types spec (length (Arguments cmd)))"
      unfolding d(2)[symmetric] by simp
    then show "err_Type e \<noteq> ''TYPE_MISMATCH''"
      using count_error_types_simps(1) by metis
  qed
  moreover have "filter (\<lambda>e. err_Type e = ''TYPE_MISMATCH'') tes = tes"
    using names_argument_type[OF d(3)] by (rule filter_all)
  moreover have "filter (\<lambda>e. err_Type e = ''TYPE_MISMATCH'') oes = []"
  proof (rule filter_none)
    fix e assume "e \<in> set oes"
    from option_phase_error_type[OF d(4) this]
    show "err_Type e \<noteq> ''TYPE_MISMATCH''" by auto
  qed
  ultimately show ?thesis
    using d(1,3) by (simp add: mismatches_def)
qed

theorem positional_type_check_witness:
  "commands New_Analyzer (ToUpper ''ZADD'') = Some (the (initializeCommands ''ZADD''))
   \<and> list_all2
        (names_argument
           \<lparr>Command = ''ZADD'',
            Arguments = [IntegerLiteral 1, Identifier ''x'', IntegerLiteral 2, IntegerLiteral 3]\<rparr>)
        (filter (\<lambda>e. err_Type e = ''TYPE_MISMATCH'')
           (Errors (ValidateCommand (\<lambda>s. s) New_Analyzer
              \<lparr>Command = ''ZADD'',
               Arguments = [IntegerLiteral 1, Identifier ''x'', IntegerLiteral 2,
                            IntegerLiteral 3]\<rparr>)))
        [0, 1, 2]"
proof -
  have h: "commands New_Analyzer (ToUpper ''ZADD'') = Some (the (initializeCommands ''ZADD''))"
    by (simp add: New_Analyzer_def initializeCommands_def ToUpper_def upper_byte_def)
  have v: "ValueTypes (the (initializeCommands ''ZADD'')) = [''key'', ''score'', ''member'']"
    by (simp add: initializeCommands_def)
  have u: "[0 ..< 3] = [0, 1, 2::nat]"
    by (simp add: upt_rec)
  show ?thesis
    using h
      positional_type_check[of New_Analyzer
        "\<lparr>Command = ''ZADD'',
          Arguments = [IntegerLiteral 1, Identifier ''x'', IntegerLiteral 2, IntegerLiteral 3]\<rparr>"
        "the (initializeCommands ''ZADD'')" "\<lambda>s. s"]
    by (simp add: v u category_accepts_def numeral_2_eq_2)
qed

text \<open>
  C10. Every error of kind \<open>OPTION_TYPE_MISMATCH\<close> or \<open>INVALID_VALUE_RANGE\<close> in a
  validation result carries the command name \<open>"unknown"\<close>: the value checker reads
  \<open>CommandInfo["name"]\<close>, which is set only after the option scan.
\<close>

theorem option_value_errors_command_unknown:
  assumes "e \<in> set (Errors (ValidateCommand f a cmd))"
    and "err_Type e = ''OPTION_TYPE_MISMATCH'' \<or> err_Type e = ''INVALID_VALUE_RANGE''"
  shows "err_Command e = ''unknown''"
proof (cases "commands a (ToUpper (Command cmd))")
  case None
  from assms show ?thesis unfolding ValidateCommand_unknown[OF None] by auto
next
  case (Some spec)
  obtain ces tes oes where d:
      "Errors (ValidateCommand f a cmd) = ces @ tes @ oes"
      "map err_Type ces = count_error_types spec (length (Arguments cmd))"
      "list_all2 (names_argument cmd) tes (mismatches cmd spec 0)"
      "list_all option_phase_error oes"
    using ValidateCommand_known[OF Some] by blast
  from assms(1) d(1) consider "e \<in> set ces" | "e \<in> set tes" | "e \<in> set oes" by auto
  then show ?thesis
  proof cases
    case 1
    then have "err_Type e \<in> set (count_error_types spec (length (Arguments cmd)))"
      unfolding d(2)[symmetric] by simp
    with assms(2) show ?thesis using count_error_types_simps(2,3) by metis
  next
    case 2
    from names_argument_type[OF d(3) this] assms(2) show ?thesis by auto
  next
    case 3
    with d(4) have "option_phase_error e" by (simp add: list_all_iff)
    with assms(2) show ?thesis by (auto simp: option_phase_error_def)
  qed
qed

theorem option_value_errors_command_unknown_witness:
  "\<lparr>Message = ''Expiration time must be positive, got -60'', err_Command = ''unknown'',
     err_Position = 0, err_Type = ''INVALID_VALUE_RANGE''\<rparr>
     \<in> set (Errors (ValidateCommand (\<lambda>s. s) New_Analyzer
          \<lparr>Command = ''SET'',
           Arguments = [Identifier ''key'', StringLiteral ''value'', KeywordExpression ''EX'',
                        IntegerLiteral (- 60)]\<rparr>))
   \<and> err_Command (hd (Errors (ValidateCommand (\<lambda>s. s) New_Analyzer
          \<lparr>Command = ''SET'',
           Arguments = [Identifier ''key'', StringLiteral ''value'', KeywordExpression ''EX'',
                        IntegerLiteral (- 60)]\<rparr>))) = ''unknown''"
proof -
  have e: "Errors (ValidateCommand (\<lambda>s. s) New_Analyzer
          \<lparr>Command = ''SET'',
           Arguments = [Identifier ''key'', StringLiteral ''value'', KeywordExpression ''EX'',
                        IntegerLiteral (- 60)]\<rparr>) =
      [\<lparr>Message = ''Expiration time must be positive, got -60'', err_Command = ''unknown'',
        err_Position = 0, err_Type = ''INVALID_VALUE_RANGE''\<rparr>]"
    by code_simp
  have m: "hd (Errors (ValidateCommand (\<lambda>s. s) New_Analyzer
          \<lparr>Command = ''SET'',
           Arguments = [Identifier ''key'', StringLiteral ''value'', KeywordExpression ''EX'',
                        IntegerLiteral (- 60)]\<rparr>))
        \<in> set (Errors (ValidateCommand (\<lambda>s. s) New_Analyzer
          \<lparr>Command = ''SET'',
           Arguments = [Identifier ''key'', StringLiteral ''value'', KeywordExpression ''EX'',
                        IntegerLiteral (- 60)]\<rparr>))"
    unfolding e by simp
  have t: "err_Type (hd (Errors (ValidateCommand (\<lambda>s. s) New_Analyzer
          \<lparr>Command = ''SET'',
           Arguments = [Identifier ''key'', StringLiteral ''value'', KeywordExpression ''EX'',
                        IntegerLiteral (- 60)]\<rparr>))) = ''OPTION_TYPE_MISMATCH''
      \<or> err_Type (hd (Errors (ValidateCommand (\<lambda>s. s) New_Analyzer
          \<lparr>Command = ''SET'',
           Arguments = [Identifier ''key'', StringLiteral ''value'', KeywordExpression ''EX'',
                        IntegerLiteral (- 60)]\<rparr>))) = ''INVALID_VALUE_RANGE''"
    unfolding e by simp
  have "\<lparr>Message = ''Expiration time must be positive, got -60'', err_Command = ''unknown'',
     err_Position = 0, err_Type = ''INVALID_VALUE_RANGE''\<rparr>
     \<in> set (Errors (ValidateCommand (\<lambda>s. s) New_Analyzer
          \<lparr>Command = ''SET'',
           Arguments = [Identifier ''key'', StringLiteral ''value'', KeywordExpression ''EX'',
                        IntegerLiteral (- 60)]\<rparr>))"
    unfolding e by simp
  then show ?thesis
    using option_value_errors_command_unknown[OF m t] by (rule conjI)
qed


text \<open>
  C4. For a command whose uppercase name is not in the specification table,
  \<open>ValidateCommand\<close> returns \<open>Valid = false\<close> with exactly one error, of kind
  \<open>UNKNOWN_COMMAND\<close>, no warning and an empty \<open>CommandInfo\<close>: no other check has run.
\<close>

theorem unknown_command_single_error:
  assumes "commands a (ToUpper (Command cmd)) = None"
  shows "ValidateCommand fmtFloat a cmd =
           \<lparr>Valid = False,
            Errors = [\<lparr>Message = ''Unknown command: '' @ ToUpper (Command cmd),
                       err_Command = ToUpper (Command cmd), err_Position = 0,
                       err_Type = ''UNKNOWN_COMMAND''\<rparr>],
            Warnings = [], CommandInfo = Map.empty\<rparr>"
  using assms by (rule ValidateCommand_unknown)

theorem unknown_command_single_error_witness:
  "commands New_Analyzer (ToUpper (Command \<lparr>Command = ''UNKNOWN'', Arguments = [Identifier ''key'']\<rparr>))
     = None
   \<and> ValidateCommand (\<lambda>s. s) New_Analyzer \<lparr>Command = ''UNKNOWN'', Arguments = [Identifier ''key'']\<rparr> =
       \<lparr>Valid = False,
        Errors = [\<lparr>Message = ''Unknown command: UNKNOWN'', err_Command = ''UNKNOWN'',
                   err_Position = 0, err_Type = ''UNKNOWN_COMMAND''\<rparr>],
        Warnings = [], CommandInfo = Map.empty\<rparr>"
proof -
  have h: "commands New_Analyzer
             (ToUpper (Command \<lparr>Command = ''UNKNOWN'', Arguments = [Identifier ''key'']\<rparr>)) = None"
    by (simp add: New_Analyzer_def initializeCommands_def ToUpper_def upper_byte_def)
  have u: "ToUpper ''UNKNOWN'' = ''UNKNOWN''"
    by (simp add: ToUpper_def upper_byte_def)
  show ?thesis
    using h unknown_command_single_error[OF h, of "\<lambda>s. s"] by (simp add: u)
qed

lemma error_types_known:
  assumes "commands a (ToUpper (Command cmd)) = Some spec"
  shows "(''INSUFFICIENT_ARGS'' \<in> err_Type ` set (Errors (ValidateCommand f a cmd)))
           = (int (length (Arguments cmd)) < MinArgs spec)"
    and "(''EXCESSIVE_ARGS'' \<in> err_Type ` set (Errors (ValidateCommand f a cmd)))
           = (MaxArgs spec \<noteq> - 1 \<and> int (length (Arguments cmd)) > MaxArgs spec)"
proof -
  obtain ces tes oes where d:
      "Errors (ValidateCommand f a cmd) = ces @ tes @ oes"
      "map err_Type ces = count_error_types spec (length (Arguments cmd))"
      "list_all2 (names_argument cmd) tes (mismatches cmd spec 0)"
      "list_all option_phase_error oes"
    using ValidateCommand_known[OF assms] by blast
  have t: "err_Type ` set tes \<subseteq> {''TYPE_MISMATCH''}"
    using names_argument_type[OF d(3)] by auto
  have o: "err_Type ` set oes \<subseteq> {''OPTION_CONFLICT'', ''MISSING_OPTION_VALUE'',
             ''OPTION_TYPE_MISMATCH'', ''INVALID_VALUE_RANGE''}"
    using option_phase_error_type[OF d(4)] by auto
  have c: "err_Type ` set ces = set (count_error_types spec (length (Arguments cmd)))"
    unfolding d(2)[symmetric] by simp
  have s: "err_Type ` set (Errors (ValidateCommand f a cmd))
             = set (count_error_types spec (length (Arguments cmd)))
               \<union> err_Type ` set tes \<union> err_Type ` set oes"
    unfolding d(1) c[symmetric] by auto
  have nt: "''INSUFFICIENT_ARGS'' \<notin> err_Type ` set tes" "''EXCESSIVE_ARGS'' \<notin> err_Type ` set tes"
    using t by auto
  have no: "''INSUFFICIENT_ARGS'' \<notin> err_Type ` set oes" "''EXCESSIVE_ARGS'' \<notin> err_Type ` set oes"
    using o by auto
  show "(''INSUFFICIENT_ARGS'' \<in> err_Type ` set (Errors (ValidateCommand f a cmd)))
           = (int (length (Arguments cmd)) < MinArgs spec)"
    unfolding s using nt(1) no(1) by (simp add: count_error_types_def)
  show "(''EXCESSIVE_ARGS'' \<in> err_Type ` set (Errors (ValidateCommand f a cmd)))
           = (MaxArgs spec \<noteq> - 1 \<and> int (length (Arguments cmd)) > MaxArgs spec)"
    unfolding s using nt(2) no(2) by (simp add: count_error_types_def)
qed

lemma initializeCommands_bounds:
  "initializeCommands name = Some spec \<Longrightarrow> MaxArgs spec = - 1 \<or> MinArgs spec \<le> MaxArgs spec"
  by (auto simp: initializeCommands_def split: if_splits)

text \<open>
  C2. For a command whose uppercase name is in the table built by \<open>initializeCommands\<close>:
  with exactly \<open>MinArgs\<close> arguments the result has no \<open>INSUFFICIENT_ARGS\<close> error; with
  exactly \<open>MaxArgs\<close> arguments, \<open>MaxArgs\<close> bounded, it has no \<open>EXCESSIVE_ARGS\<close> error; with
  \<open>MinArgs - 1\<close> arguments it has an \<open>INSUFFICIENT_ARGS\<close> error; and no result has both
  kinds of error.
\<close>

theorem argument_count_boundaries:
  assumes "commands New_Analyzer (ToUpper (Command cmd)) = Some spec"
  shows "(int (length (Arguments cmd)) = MinArgs spec \<longrightarrow>
            ''INSUFFICIENT_ARGS'' \<notin> err_Type ` set (Errors (ValidateCommand f New_Analyzer cmd)))
       \<and> (MaxArgs spec \<noteq> - 1 \<and> int (length (Arguments cmd)) = MaxArgs spec \<longrightarrow>
            ''EXCESSIVE_ARGS'' \<notin> err_Type ` set (Errors (ValidateCommand f New_Analyzer cmd)))
       \<and> (int (length (Arguments cmd)) = MinArgs spec - 1 \<longrightarrow>
            ''INSUFFICIENT_ARGS'' \<in> err_Type ` set (Errors (ValidateCommand f New_Analyzer cmd)))
       \<and> \<not> (''INSUFFICIENT_ARGS'' \<in> err_Type ` set (Errors (ValidateCommand f New_Analyzer cmd))
            \<and> ''EXCESSIVE_ARGS'' \<in> err_Type ` set (Errors (ValidateCommand f New_Analyzer cmd)))"
proof -
  have "MaxArgs spec = - 1 \<or> MinArgs spec \<le> MaxArgs spec"
    using assms initializeCommands_bounds by (simp add: New_Analyzer_def)
  then show ?thesis
    unfolding error_types_known[OF assms] by auto
qed

text \<open>The equations that evaluate the analyzer on a concrete command.\<close>

lemmas eval_analyzer =
  New_Analyzer_def initializeCommands_def ToUpper_def upper_byte_def
  ValidateCommand_def Let_def validateArgumentTypes_def validateOptions_def
  validateArgumentTypes_from.simps validateOptions_from.simps validateOptions_body_def
  checkArgumentType_def typeMismatch_def addSemanticError_def addWarning_def
  validateOptionValue_def fmt_d_def digits10.simps

theorem argument_count_boundaries_witness:
  "commands New_Analyzer (ToUpper ''GET'') = Some (the (initializeCommands ''GET''))
   \<and> ''INSUFFICIENT_ARGS'' \<notin> err_Type ` set (Errors (ValidateCommand (\<lambda>s. s) New_Analyzer
         \<lparr>Command = ''GET'', Arguments = [Identifier ''mykey'']\<rparr>))
   \<and> ''EXCESSIVE_ARGS'' \<notin> err_Type ` set (Errors (ValidateCommand (\<lambda>s. s) New_Analyzer
         \<lparr>Command = ''GET'', Arguments = [Identifier ''mykey'']\<rparr>))
   \<and> ''INSUFFICIENT_ARGS'' \<in> err_Type ` set (Errors (ValidateCommand (\<lambda>s. s) New_Analyzer
         \<lparr>Command = ''GET'', Arguments = []\<rparr>))"
proof -
  have h: "commands New_Analyzer (ToUpper ''GET'') = Some (the (initializeCommands ''GET''))"
    by (simp add: New_Analyzer_def initializeCommands_def ToUpper_def upper_byte_def)
  have m: "MinArgs (the (initializeCommands ''GET'')) = 1"
          "MaxArgs (the (initializeCommands ''GET'')) = 1"
    by (simp_all add: initializeCommands_def)
  show ?thesis
    using h m
      argument_count_boundaries[of "\<lparr>Command = ''GET'', Arguments = [Identifier ''mykey'']\<rparr>"
        "the (initializeCommands ''GET'')" "\<lambda>s. s"]
      argument_count_boundaries[of "\<lparr>Command = ''GET'', Arguments = []\<rparr>"
        "the (initializeCommands ''GET'')" "\<lambda>s. s"]
    by simp
qed

subsection \<open>What the option scan reaches\<close>

text \<open>\<open>grows r r'\<close>: \<open>r'\<close> keeps the errors and the warnings of \<open>r\<close> and may add some.\<close>

definition grows :: "ValidationResult \<Rightarrow> ValidationResult \<Rightarrow> bool" where
  "grows r r' = (prefix (Errors r) (Errors r') \<and> prefix (Warnings r) (Warnings r'))"

lemma grows_refl [simp]: "grows r r"
  by (simp add: grows_def)

lemma grows_trans: "grows r r1 \<Longrightarrow> grows r1 r2 \<Longrightarrow> grows r r2"
  by (auto simp: grows_def)

lemma grows_addSemanticError [simp]: "grows r (addSemanticError m c k r)"
  by (simp add: grows_def)

lemma grows_addWarning [simp]: "grows r (addWarning m r)"
  by (simp add: grows_def)

lemma grows_Errors: "grows r r' \<Longrightarrow> e \<in> set (Errors r) \<Longrightarrow> e \<in> set (Errors r')"
  by (auto simp: grows_def dest: set_mono_prefix)

lemma grows_Warnings: "grows r r' \<Longrightarrow> w \<in> set (Warnings r) \<Longrightarrow> w \<in> set (Warnings r')"
  by (auto simp: grows_def dest: set_mono_prefix)

lemma checkConflicts_grows: "grows r (checkConflicts cmd n used cs r)"
proof (induction cs arbitrary: r)
  case Nil
  show ?case by simp
next
  case (Cons c cs)
  define r1 where "r1 = (if used c then addSemanticError
             (''Option '' @ [CHR 0x27] @ n @ [CHR 0x27] @ '' conflicts with ''
                @ [CHR 0x27] @ c @ [CHR 0x27]) (Command cmd) ''OPTION_CONFLICT'' r else r)"
  have e1: "grows r r1" unfolding r1_def by simp
  have "checkConflicts cmd n used (c # cs) r = checkConflicts cmd n used cs r1"
    unfolding r1_def by simp
  moreover have "grows r1 (checkConflicts cmd n used cs r1)" by (rule Cons.IH)
  ultimately show ?case using grows_trans[OF e1] by simp
qed

lemma checkConflicts_flags:
  "c \<in> set cs \<Longrightarrow> used c \<Longrightarrow>
   \<lparr>Message = ''Option '' @ [CHR 0x27] @ n @ [CHR 0x27] @ '' conflicts with ''
                @ [CHR 0x27] @ c @ [CHR 0x27],
    err_Command = Command cmd, err_Position = 0, err_Type = ''OPTION_CONFLICT''\<rparr>
     \<in> set (Errors (checkConflicts cmd n used cs r))"
proof (induction cs arbitrary: r)
  case Nil
  then show ?case by simp
next
  case (Cons d cs)
  define r1 where "r1 = (if used d then addSemanticError
             (''Option '' @ [CHR 0x27] @ n @ [CHR 0x27] @ '' conflicts with ''
                @ [CHR 0x27] @ d @ [CHR 0x27]) (Command cmd) ''OPTION_CONFLICT'' r else r)"
  have u: "checkConflicts cmd n used (d # cs) r = checkConflicts cmd n used cs r1"
    unfolding r1_def by simp
  show ?case
  proof (cases "c = d")
    case True
    with Cons.prems have "\<lparr>Message = ''Option '' @ [CHR 0x27] @ n @ [CHR 0x27]
        @ '' conflicts with '' @ [CHR 0x27] @ c @ [CHR 0x27],
        err_Command = Command cmd, err_Position = 0, err_Type = ''OPTION_CONFLICT''\<rparr>
        \<in> set (Errors r1)"
      unfolding r1_def by simp
    then show ?thesis unfolding u by (rule grows_Errors[OF checkConflicts_grows])
  next
    case False
    with Cons.prems have "c \<in> set cs" by simp
    from Cons.IH[OF this Cons.prems(2)] show ?thesis unfolding u .
  qed
qed

lemma validateOptionValue_grows: "grows r (validateOptionValue n os v r)"
  using validateOptionValue_cases[of n os v r] by auto

lemma validateOptions_body_grows:
  "grows r (snd (snd (validateOptions_body f cmd spec i used r)))"
proof (cases f cmd spec i used r rule: validateOptions_body_cases)
  case (missing v os m)
  from grows_trans[OF checkConflicts_grows grows_addSemanticError] missing(5)
  show ?thesis by simp
next
  case (valued v os)
  from grows_trans[OF checkConflicts_grows validateOptionValue_grows] valued(5)
  show ?thesis by simp
qed (simp_all add: checkConflicts_grows)

lemma validateOptions_body_used:
  "used n \<Longrightarrow> fst (snd (validateOptions_body f cmd spec i used r)) n"
  by (cases f cmd spec i used r rule: validateOptions_body_cases) simp_all

lemma validateOptions_from_grows:
  "grows r (validateOptions_from f cmd spec i used r)"
proof (induction f cmd spec i used r rule: validateOptions_from.induct)
  case (1 f cmd spec i used r)
  show ?case
  proof (cases "i < length (Arguments cmd)")
    case False
    then show ?thesis by (subst validateOptions_from.simps) simp
  next
    case True
    obtain i' used' r' where b: "validateOptions_body f cmd spec i used r = (i', used', r')"
      by (cases "validateOptions_body f cmd spec i used r") auto
    have e1: "grows r r'"
      using validateOptions_body_grows[of r f cmd spec i used] b by simp
    from "1.IH"[OF _ b[symmetric] refl] True
    have "grows r' (validateOptions_from f cmd spec (i' + 1) used' r')" by simp
    with e1 have "grows r (validateOptions_from f cmd spec (i' + 1) used' r')"
      by (rule grows_trans)
    then show ?thesis
      using True b by (subst validateOptions_from.simps) simp
  qed
qed

lemma validateOptions_trace_bounds:
  "k \<in> set (validateOptions_trace f cmd spec i used r) \<Longrightarrow> i \<le> k \<and> k < length (Arguments cmd)"
proof (induction f cmd spec i used r rule: validateOptions_trace.induct)
  case (1 f cmd spec i used r)
  show ?case
  proof (cases "i < length (Arguments cmd)")
    case False
    with "1.prems" show ?thesis by (subst (asm) validateOptions_trace.simps) simp
  next
    case True
    obtain i' used' r' where b: "validateOptions_body f cmd spec i used r = (i', used', r')"
      by (cases "validateOptions_body f cmd spec i used r") auto
    have i': "i \<le> i'"
      using validateOptions_body_index[of f cmd spec i used r] b by auto
    from "1.prems" True b
    have "k = i \<or> k \<in> set (validateOptions_trace f cmd spec (i' + 1) used' r')"
      by (subst (asm) validateOptions_trace.simps) simp
    then show ?thesis
    proof
      assume "k = i" with True show ?thesis by simp
    next
      assume "k \<in> set (validateOptions_trace f cmd spec (i' + 1) used' r')"
      from "1.IH"[OF _ b[symmetric] refl this] True i' show ?thesis by simp
    qed
  qed
qed

lemma validateOptions_trace_reach:
  "j \<in> set (validateOptions_trace f cmd spec i used r) \<Longrightarrow>
   \<exists>used' r' pre.
      validateOptions_from f cmd spec i used r = validateOptions_from f cmd spec j used' r'
    \<and> validateOptions_trace f cmd spec i used r
         = pre @ validateOptions_trace f cmd spec j used' r'
    \<and> (\<forall>k \<in> set pre. k < j)
    \<and> (\<forall>n. used n \<longrightarrow> used' n)
    \<and> grows r r'"
proof (induction f cmd spec i used r rule: validateOptions_from.induct)
  case (1 f cmd spec i used r)
  have True: "i < length (Arguments cmd)"
    using "1.prems" by (subst (asm) validateOptions_trace.simps) (auto split: if_splits)
  obtain i' used1 r1 where b: "validateOptions_body f cmd spec i used r = (i', used1, r1)"
    by (cases "validateOptions_body f cmd spec i used r") auto
  have i': "i \<le> i'"
    using validateOptions_body_index[of f cmd spec i used r] b by auto
  have tr: "validateOptions_trace f cmd spec i used r
              = i # validateOptions_trace f cmd spec (i' + 1) used1 r1"
    using True b by (subst validateOptions_trace.simps) simp
  have fr: "validateOptions_from f cmd spec i used r
              = validateOptions_from f cmd spec (i' + 1) used1 r1"
    using True b by (subst validateOptions_from.simps) simp
  show ?case
  proof (cases "j = i")
    case True
    then show ?thesis
      by (intro exI[of _ used] exI[of _ r] exI[of _ "[]"]) simp
  next
    case False
    with "1.prems" tr have jin: "j \<in> set (validateOptions_trace f cmd spec (i' + 1) used1 r1)"
      by simp
    from "1.IH"[OF _ b[symmetric] refl this] True
    obtain used' r' pre where ih:
        "validateOptions_from f cmd spec (i' + 1) used1 r1
           = validateOptions_from f cmd spec j used' r'"
        "validateOptions_trace f cmd spec (i' + 1) used1 r1
           = pre @ validateOptions_trace f cmd spec j used' r'"
        "\<forall>k \<in> set pre. k < j" "\<forall>n. used1 n \<longrightarrow> used' n" "grows r1 r'"
      by auto
    have "i < j" using validateOptions_trace_bounds[OF jin] i' by simp
    moreover have "grows r r'"
      using validateOptions_body_grows[of r f cmd spec i used] b ih(5) grows_trans by simp
    moreover have "\<forall>n. used n \<longrightarrow> used' n"
      using validateOptions_body_used[of used _ f cmd spec i r] b ih(4) by simp
    ultimately show ?thesis
      using ih(1,2,3) fr tr
      by (intro exI[of _ used'] exI[of _ r'] exI[of _ "i # pre"]) simp
  qed
qed

text \<open>
  The positions the option scan of \<open>validateOptions\<close> reaches in a command: the indices
  at which the loop runs its body. An argument consumed as an option's value is not
  among them. (The positions do not depend on the result or on the options used so far.)
\<close>

definition validateOptions_positions ::
    "(string \<Rightarrow> string) \<Rightarrow> RedisCommand \<Rightarrow> CommandSpec \<Rightarrow> nat list" where
  "validateOptions_positions fmtFloat cmd spec =
     validateOptions_trace fmtFloat cmd spec 0 (\<lambda>name. False)
       \<lparr>Valid = True, Errors = [], Warnings = [], CommandInfo = Map.empty\<rparr>"

lemma validateOptions_body_index_indep:
  "fst (validateOptions_body f cmd spec i used r) = fst (validateOptions_body f cmd spec i used0 r0)"
  by (simp add: validateOptions_body_def Let_def split: option.split)

lemma validateOptions_trace_indep:
  "validateOptions_trace f cmd spec i used r = validateOptions_trace f cmd spec i used0 r0"
proof (induction f cmd spec i used r arbitrary: used0 r0 rule: validateOptions_trace.induct)
  case (1 f cmd spec i used r)
  show ?case
  proof (cases "i < length (Arguments cmd)")
    case False
    then show ?thesis
      by (subst validateOptions_trace.simps, subst (2) validateOptions_trace.simps) simp
  next
    case True
    obtain i' used1 r1 where b: "validateOptions_body f cmd spec i used r = (i', used1, r1)"
      by (cases "validateOptions_body f cmd spec i used r") auto
    obtain i0' used2 r2 where b0: "validateOptions_body f cmd spec i used0 r0 = (i0', used2, r2)"
      by (cases "validateOptions_body f cmd spec i used0 r0") auto
    have "i0' = i'"
      using validateOptions_body_index_indep[of f cmd spec i used r used0 r0] b b0 by simp
    with "1.IH"[OF _ b[symmetric] refl, of used2 r2] True b b0 show ?thesis
      by (subst validateOptions_trace.simps, subst (2) validateOptions_trace.simps) simp
  qed
qed

lemma validateOptions_step:
  assumes "i \<in> set (validateOptions_trace f cmd spec i0 used r)"
  shows "\<exists>ui ri i' u1 r1 pre.
      validateOptions_body f cmd spec i ui ri = (i', u1, r1)
    \<and> (\<forall>n. used n \<longrightarrow> ui n) \<and> grows r ri
    \<and> validateOptions_from f cmd spec i0 used r = validateOptions_from f cmd spec (i' + 1) u1 r1
    \<and> validateOptions_trace f cmd spec i0 used r
         = pre @ i # validateOptions_trace f cmd spec (i' + 1) u1 r1
    \<and> (\<forall>k \<in> set pre. k < i)"
proof -
  from validateOptions_trace_reach[OF assms]
  obtain ui ri pre where re:
      "validateOptions_from f cmd spec i0 used r = validateOptions_from f cmd spec i ui ri"
      "validateOptions_trace f cmd spec i0 used r
         = pre @ validateOptions_trace f cmd spec i ui ri"
      "\<forall>k \<in> set pre. k < i" "\<forall>n. used n \<longrightarrow> ui n" "grows r ri"
    by blast
  have lt: "i < length (Arguments cmd)"
    using validateOptions_trace_bounds[OF assms] by simp
  obtain i' u1 r1 where b: "validateOptions_body f cmd spec i ui ri = (i', u1, r1)"
    by (cases "validateOptions_body f cmd spec i ui ri") auto
  have tr: "validateOptions_trace f cmd spec i ui ri
              = i # validateOptions_trace f cmd spec (i' + 1) u1 r1"
    using lt b by (subst validateOptions_trace.simps) simp
  have fr: "validateOptions_from f cmd spec i ui ri
              = validateOptions_from f cmd spec (i' + 1) u1 r1"
    using lt b by (subst validateOptions_from.simps) simp
  show ?thesis
    using b re tr fr
    by (intro exI[of _ ui] exI[of _ ri] exI[of _ i'] exI[of _ u1] exI[of _ r1] exI[of _ pre])
       simp
qed

lemma validateOptions_body_known:
  assumes "Arguments cmd ! i = KeywordExpression x" "Options spec (ToUpper x) = Some os"
    and "validateOptions_body f cmd spec i used r = (i', u1, r1)"
  shows "u1 = used(ToUpper x := True)"
    and "grows (checkConflicts cmd (ToUpper x) used (Conflicts os) r) r1"
    and "i' = (if HasValue os \<and> i + 1 < length (Arguments cmd) then i + 1 else i)"
    and "HasValue os \<Longrightarrow> length (Arguments cmd) \<le> i + 1 \<Longrightarrow>
         \<lparr>Message = ''Option '' @ [CHR 0x27] @ ToUpper x @ [CHR 0x27] @ '' requires a value'',
          err_Command = Command cmd, err_Position = 0, err_Type = ''MISSING_OPTION_VALUE''\<rparr>
           \<in> set (Errors r1)"
    and "HasValue os \<Longrightarrow> i + 1 < length (Arguments cmd) \<Longrightarrow>
         r1 = validateOptionValue (ToUpper x) os (Arguments cmd ! (i + 1))
                (checkConflicts cmd (ToUpper x) used (Conflicts os) r)"
  using assms
  by (auto simp: validateOptions_body_def Let_def validateOptionValue_grows split: if_splits)

lemma ValidateCommand_scan:
  assumes "commands a (ToUpper (Command cmd)) = Some spec"
  shows "\<exists>r3. Errors (ValidateCommand f a cmd)
                = Errors (validateOptions_from f cmd spec 0 (\<lambda>name. False) r3)
            \<and> Warnings (ValidateCommand f a cmd)
                = Warnings (validateOptions_from f cmd spec 0 (\<lambda>name. False) r3)
            \<and> CommandInfo r3 ''name'' = None"
proof -
  define r0 where "r0 = \<lparr>Valid = True, Errors = [], Warnings = [], CommandInfo = Map.empty\<rparr>"
  define n where "n = int (length (Arguments cmd))"
  define r1 where "r1 = (if n < MinArgs spec then
                       addSemanticError
                         (''Too few arguments. Expected at least '' @ fmt_d (MinArgs spec)
                            @ '', got '' @ fmt_d n)
                         (ToUpper (Command cmd)) ''INSUFFICIENT_ARGS'' r0
                     else r0)"
  define r2 where "r2 = (if MaxArgs spec \<noteq> - 1 \<and> n > MaxArgs spec then
                       addSemanticError
                         (''Too many arguments. Expected at most '' @ fmt_d (MaxArgs spec)
                            @ '', got '' @ fmt_d n)
                         (ToUpper (Command cmd)) ''EXCESSIVE_ARGS'' r1
                     else r1)"
  define r3 where "r3 = validateArgumentTypes cmd spec r2"
  have "Errors (ValidateCommand f a cmd)
          = Errors (validateOptions_from f cmd spec 0 (\<lambda>name. False) r3)"
       "Warnings (ValidateCommand f a cmd)
          = Warnings (validateOptions_from f cmd spec 0 (\<lambda>name. False) r3)"
    using assms
    by (simp_all add: ValidateCommand_def Let_def validateOptions_def r3_def r2_def r1_def
          r0_def n_def)
  moreover have "CommandInfo r2 = Map.empty"
    by (simp add: r2_def r1_def r0_def)
  then have "CommandInfo r3 ''name'' = None"
    unfolding r3_def validateArgumentTypes_def
    using validateArgumentTypes_from_spec[of cmd spec 0 r2] by auto
  ultimately show ?thesis by blast
qed

lemma conflict_flagged:
  assumes "i \<in> set (validateOptions_trace f cmd spec i0 used r)"
    and "j \<in> set (validateOptions_trace f cmd spec i0 used r)" and "i < j"
    and "Arguments cmd ! i = KeywordExpression x" "Options spec (ToUpper x) = Some sa"
    and "Arguments cmd ! j = KeywordExpression y" "Options spec (ToUpper y) = Some sb"
    and "ToUpper x \<in> set (Conflicts sb)"
  shows "\<lparr>Message = ''Option '' @ [CHR 0x27] @ ToUpper y @ [CHR 0x27] @ '' conflicts with ''
                @ [CHR 0x27] @ ToUpper x @ [CHR 0x27],
          err_Command = Command cmd, err_Position = 0, err_Type = ''OPTION_CONFLICT''\<rparr>
           \<in> set (Errors (validateOptions_from f cmd spec i0 used r))"
proof -
  from validateOptions_step[OF assms(1)]
  obtain ui ri i' u1 r1 pre where si:
      "validateOptions_body f cmd spec i ui ri = (i', u1, r1)"
      "validateOptions_from f cmd spec i0 used r = validateOptions_from f cmd spec (i' + 1) u1 r1"
      "validateOptions_trace f cmd spec i0 used r
         = pre @ i # validateOptions_trace f cmd spec (i' + 1) u1 r1"
      "\<forall>k \<in> set pre. k < i"
    by blast
  have u1: "u1 (ToUpper x)"
    using validateOptions_body_known(1)[OF assms(4,5) si(1)] by simp
  have "j \<in> set (validateOptions_trace f cmd spec (i' + 1) u1 r1)"
    using assms(2,3) si(3,4) by auto
  from validateOptions_step[OF this]
  obtain uj rj j' u2 r2 where sj:
      "validateOptions_body f cmd spec j uj rj = (j', u2, r2)"
      "\<forall>n. u1 n \<longrightarrow> uj n"
      "validateOptions_from f cmd spec (i' + 1) u1 r1
         = validateOptions_from f cmd spec (j' + 1) u2 r2"
    by blast
  have "uj (ToUpper x)" using u1 sj(2) by simp
  from checkConflicts_flags[of "ToUpper x" "Conflicts sb" uj "ToUpper y" cmd rj, OF assms(8) this]
  have "\<lparr>Message = ''Option '' @ [CHR 0x27] @ ToUpper y @ [CHR 0x27] @ '' conflicts with ''
                @ [CHR 0x27] @ ToUpper x @ [CHR 0x27],
          err_Command = Command cmd, err_Position = 0, err_Type = ''OPTION_CONFLICT''\<rparr>
           \<in> set (Errors (checkConflicts cmd (ToUpper y) uj (Conflicts sb) rj))" .
  then have "\<lparr>Message = ''Option '' @ [CHR 0x27] @ ToUpper y @ [CHR 0x27] @ '' conflicts with ''
                @ [CHR 0x27] @ ToUpper x @ [CHR 0x27],
          err_Command = Command cmd, err_Position = 0, err_Type = ''OPTION_CONFLICT''\<rparr>
           \<in> set (Errors r2)"
    by (rule grows_Errors[OF validateOptions_body_known(2)[OF assms(6,7) sj(1)]])
  then show ?thesis
    unfolding si(2) sj(3) by (rule grows_Errors[OF validateOptions_from_grows])
qed

text \<open>
  C3 (amended). For a command with a specification and two options \<open>A\<close> and \<open>B\<close> that
  the specification declares as mutually conflicting: when the option scan reaches a
  keyword \<open>A\<close> at one position and a keyword \<open>B\<close> at another (neither is consumed as the
  value of an earlier value-taking option), the result has an \<open>OPTION_CONFLICT\<close> error,
  in both orderings, and its message names the later option first: the conflict is flagged
  when the second of the two is reached.
\<close>

theorem option_conflict_both_orders:
  assumes "commands a (ToUpper (Command cmd)) = Some spec"
    and "Options spec A = Some sa" and "Options spec B = Some sb"
    and "B \<in> set (Conflicts sa)" and "A \<in> set (Conflicts sb)"
    and "i \<in> set (validateOptions_positions f cmd spec)"
    and "j \<in> set (validateOptions_positions f cmd spec)"
    and "Arguments cmd ! i = KeywordExpression x" and "ToUpper x = A"
    and "Arguments cmd ! j = KeywordExpression y" and "ToUpper y = B"
    and "i \<noteq> j"
  shows "\<lparr>Message = ''Option '' @ [CHR 0x27] @ (if i < j then B else A) @ [CHR 0x27]
                     @ '' conflicts with '' @ [CHR 0x27] @ (if i < j then A else B)
                     @ [CHR 0x27],
          err_Command = Command cmd, err_Position = 0, err_Type = ''OPTION_CONFLICT''\<rparr>
           \<in> set (Errors (ValidateCommand f a cmd))"
proof -
  obtain r3 where r3: "Errors (ValidateCommand f a cmd)
                = Errors (validateOptions_from f cmd spec 0 (\<lambda>name. False) r3)"
    using ValidateCommand_scan[OF assms(1)] by blast
  have pi: "i \<in> set (validateOptions_trace f cmd spec 0 (\<lambda>name. False) r3)"
    and pj: "j \<in> set (validateOptions_trace f cmd spec 0 (\<lambda>name. False) r3)"
    using assms(6,7) unfolding validateOptions_positions_def
    by (subst validateOptions_trace_indep[where ?used0.0 = "\<lambda>name. False"
          and ?r0.0 = "\<lparr>Valid = True, Errors = [], Warnings = [], CommandInfo = Map.empty\<rparr>"],
        simp)+
  show ?thesis
  proof (cases "i < j")
    case True
    from conflict_flagged[OF pi pj True assms(8) _ assms(10)] assms(2,3,5,9,11) True
    show ?thesis unfolding r3 by simp
  next
    case False
    with assms(12) have "j < i" by simp
    from conflict_flagged[OF pj pi this assms(10) _ assms(8)] assms(2,3,4,9,11) False
    show ?thesis unfolding r3 by simp
  qed
qed

theorem option_conflict_both_orders_witness:
  "\<lparr>Message = ''Option '' @ [CHR 0x27] @ ''XX'' @ [CHR 0x27] @ '' conflicts with '' @ [CHR 0x27] @ ''NX'' @ [CHR 0x27], err_Command = ''SET'', err_Position = 0,
     err_Type = ''OPTION_CONFLICT''\<rparr>
     \<in> set (Errors (ValidateCommand (\<lambda>s. s) New_Analyzer
          \<lparr>Command = ''SET'',
           Arguments = [Identifier ''k'', Identifier ''v'', KeywordExpression ''NX'',
                        KeywordExpression ''XX'']\<rparr>))
   \<and> \<lparr>Message = ''Option '' @ [CHR 0x27] @ ''NX'' @ [CHR 0x27] @ '' conflicts with '' @ [CHR 0x27] @ ''XX'' @ [CHR 0x27], err_Command = ''SET'', err_Position = 0,
       err_Type = ''OPTION_CONFLICT''\<rparr>
     \<in> set (Errors (ValidateCommand (\<lambda>s. s) New_Analyzer
          \<lparr>Command = ''SET'',
           Arguments = [Identifier ''k'', Identifier ''v'', KeywordExpression ''XX'',
                        KeywordExpression ''NX'']\<rparr>))"
proof -
  define spec where "spec = the (initializeCommands ''SET'')"
  define sn where "sn = the (Options spec ''NX'')"
  define sx where "sx = the (Options spec ''XX'')"
  define c1 where "c1 = \<lparr>Command = ''SET'',
           Arguments = [Identifier ''k'', Identifier ''v'', KeywordExpression ''NX'',
                        KeywordExpression ''XX'']\<rparr>"
  define c2 where "c2 = \<lparr>Command = ''SET'',
           Arguments = [Identifier ''k'', Identifier ''v'', KeywordExpression ''XX'',
                        KeywordExpression ''NX'']\<rparr>"
  have u: "ToUpper ''SET'' = ''SET''" "ToUpper ''NX'' = ''NX''" "ToUpper ''XX'' = ''XX''"
    by (simp_all add: ToUpper_def upper_byte_def)
  have k1: "commands New_Analyzer (ToUpper (Command c1)) = Some spec"
    and k2: "commands New_Analyzer (ToUpper (Command c2)) = Some spec"
    by (simp_all add: c1_def c2_def u spec_def New_Analyzer_def initializeCommands_def)
  have on: "Options spec ''NX'' = Some sn" and ox: "Options spec ''XX'' = Some sx"
    by (simp_all add: sn_def sx_def spec_def initializeCommands_def)
  have cn: "''XX'' \<in> set (Conflicts sn)" and cx: "''NX'' \<in> set (Conflicts sx)"
    by (simp_all add: sn_def sx_def spec_def initializeCommands_def)
  have p1: "validateOptions_positions (\<lambda>s. s) c1 spec = [0, 1, 2, 3]"
    and p2: "validateOptions_positions (\<lambda>s. s) c2 spec = [0, 1, 2, 3]"
    unfolding c1_def c2_def spec_def by code_simp+
  have i1: "2 \<in> set (validateOptions_positions (\<lambda>s. s) c1 spec)"
    and j1: "3 \<in> set (validateOptions_positions (\<lambda>s. s) c1 spec)"
    and i2: "2 \<in> set (validateOptions_positions (\<lambda>s. s) c2 spec)"
    and j2: "3 \<in> set (validateOptions_positions (\<lambda>s. s) c2 spec)"
    unfolding p1 p2 by simp_all
  have a1: "Arguments c1 ! 2 = KeywordExpression ''NX''"
    and b1: "Arguments c1 ! 3 = KeywordExpression ''XX''"
    and a2: "Arguments c2 ! 3 = KeywordExpression ''NX''"
    and b2: "Arguments c2 ! 2 = KeywordExpression ''XX''"
    by (simp_all add: c1_def c2_def)
  have ne: "(2::nat) \<noteq> 3" "(3::nat) \<noteq> 2" by simp_all
  from option_conflict_both_orders[OF k1 on ox cn cx i1 j1 a1 u(2) b1 u(3) ne(1)]
       option_conflict_both_orders[OF k2 on ox cn cx j2 i2 a2 u(2) b2 u(3) ne(2)]
  show ?thesis
    unfolding c1_def c2_def by simp
qed

text \<open>
  C3 as stated fails: in \<open>SET k v EX NX XX\<close> the command contains both \<open>NX\<close> and \<open>XX\<close>,
  but \<open>NX\<close> is consumed as the value of \<open>EX\<close> and no \<open>OPTION_CONFLICT\<close> is reported.
\<close>

theorem option_conflict_counterexample:
  "KeywordExpression ''NX'' \<in> set [Identifier ''k'', Identifier ''v'', KeywordExpression ''EX'',
        KeywordExpression ''NX'', KeywordExpression ''XX'']
   \<and> KeywordExpression ''XX'' \<in> set [Identifier ''k'', Identifier ''v'', KeywordExpression ''EX'',
        KeywordExpression ''NX'', KeywordExpression ''XX'']
   \<and> map err_Type (Errors (ValidateCommand (\<lambda>s. s) New_Analyzer
        \<lparr>Command = ''SET'',
         Arguments = [Identifier ''k'', Identifier ''v'', KeywordExpression ''EX'',
                      KeywordExpression ''NX'', KeywordExpression ''XX'']\<rparr>))
      = [''OPTION_TYPE_MISMATCH'']"
  by code_simp


lemma grows_Error_types:
  "grows r r' \<Longrightarrow> t \<in> err_Type ` set (Errors r) \<Longrightarrow> t \<in> err_Type ` set (Errors r')"
  using grows_Errors by blast

text \<open>
  What the check of an option's value adds, as the specification words it: the value of an
  integer option must be an integer literal (\<open>OPTION_TYPE_MISMATCH\<close> otherwise), and for
  the time-duration options \<open>EX\<close> and \<open>PX\<close> a positive one (\<open>INVALID_VALUE_RANGE\<close>
  otherwise); a pattern or string option with another kind of value gets a warning; no
  other value gets a complaint.
\<close>

definition option_value_error_kinds :: "string \<Rightarrow> OptionSpec \<Rightarrow> Expression \<Rightarrow> string list" where
  "option_value_error_kinds optionName os v =
     (if ValueType os = ''integer'' then
        (case v of
           IntegerLiteral k \<Rightarrow>
             if (optionName = ''EX'' \<or> optionName = ''PX'') \<and> k \<le> 0
             then [''INVALID_VALUE_RANGE''] else []
         | _ \<Rightarrow> [''OPTION_TYPE_MISMATCH''])
      else [])"

definition option_value_warnings :: "string \<Rightarrow> OptionSpec \<Rightarrow> Expression \<Rightarrow> string list" where
  "option_value_warnings optionName os v =
     (if ValueType os = ''pattern''
         \<and> expr_Type v \<notin> {''PatternExpression'', ''StringLiteral'', ''Identifier''}
      then [''Option '' @ [CHR 0x27] @ optionName @ [CHR 0x27] @ '' expects a pattern, got ''
              @ expr_Type v]
      else if ValueType os = ''string'' \<and> expr_Type v \<notin> {''StringLiteral'', ''Identifier''}
      then [''Option '' @ [CHR 0x27] @ optionName @ [CHR 0x27] @ '' expects a string, got ''
              @ expr_Type v]
      else [])"

lemma expr_Type_Integer:
  "(expr_Type v = ''IntegerLiteral'') = (\<exists>k. v = IntegerLiteral k)"
  by (cases v) simp_all

lemma validateOptionValue_exact:
  "map err_Type (Errors (validateOptionValue n os v r))
     = map err_Type (Errors r) @ option_value_error_kinds n os v"
  "Warnings (validateOptionValue n os v r) = Warnings r @ option_value_warnings n os v"
  "Valid (validateOptionValue n os v r) = (Valid r \<and> option_value_error_kinds n os v = [])"
  "CommandInfo (validateOptionValue n os v r) = CommandInfo r"
proof -
  consider (int) "ValueType os = ''integer''" | (pat) "ValueType os = ''pattern''"
    | (str) "ValueType os = ''string''"
    | (other) "ValueType os \<notin> {''integer'', ''pattern'', ''string''}"
    by auto
  then have "map err_Type (Errors (validateOptionValue n os v r))
               = map err_Type (Errors r) @ option_value_error_kinds n os v
           \<and> Warnings (validateOptionValue n os v r) = Warnings r @ option_value_warnings n os v
           \<and> Valid (validateOptionValue n os v r)
               = (Valid r \<and> option_value_error_kinds n os v = [])
           \<and> CommandInfo (validateOptionValue n os v r) = CommandInfo r"
  proof cases
    case int
    then show ?thesis
      by (cases v)
         (simp_all add: validateOptionValue_def Let_def option_value_error_kinds_def
            option_value_warnings_def)
  next
    case pat
    then show ?thesis
      by (simp add: validateOptionValue_def Let_def option_value_error_kinds_def
            option_value_warnings_def)
  next
    case str
    then show ?thesis
      by (simp add: validateOptionValue_def Let_def option_value_error_kinds_def
            option_value_warnings_def)
  next
    case other
    then show ?thesis
      by (simp add: validateOptionValue_def Let_def option_value_error_kinds_def
            option_value_warnings_def)
  qed
  then show "map err_Type (Errors (validateOptionValue n os v r))
     = map err_Type (Errors r) @ option_value_error_kinds n os v"
  "Warnings (validateOptionValue n os v r) = Warnings r @ option_value_warnings n os v"
  "Valid (validateOptionValue n os v r) = (Valid r \<and> option_value_error_kinds n os v = [])"
  "CommandInfo (validateOptionValue n os v r) = CommandInfo r"
    by simp_all
qed

lemma validateOptions_from_valued_step:
  assumes "Arguments cmd ! i = KeywordExpression x" "Options spec (ToUpper x) = Some os"
    and "HasValue os" "i < length (Arguments cmd)"
  shows "i + 1 < length (Arguments cmd) \<Longrightarrow>
         validateOptions_from f cmd spec i used r =
           validateOptions_from f cmd spec (i + 2) (used(ToUpper x := True))
             (validateOptionValue (ToUpper x) os (Arguments cmd ! (i + 1))
                (checkConflicts cmd (ToUpper x) used (Conflicts os) r))"
    and "i + 1 = length (Arguments cmd) \<Longrightarrow>
         validateOptions_from f cmd spec i used r =
           addSemanticError
             (''Option '' @ [CHR 0x27] @ ToUpper x @ [CHR 0x27] @ '' requires a value'')
             (Command cmd) ''MISSING_OPTION_VALUE''
             (checkConflicts cmd (ToUpper x) used (Conflicts os) r)"
proof -
  assume lt: "i + 1 < length (Arguments cmd)"
  then have "validateOptions_body f cmd spec i used r =
      (i + 1, used(ToUpper x := True),
       validateOptionValue (ToUpper x) os (Arguments cmd ! (i + 1))
         (checkConflicts cmd (ToUpper x) used (Conflicts os) r))"
    using assms by (simp add: validateOptions_body_def Let_def)
  then show "validateOptions_from f cmd spec i used r =
           validateOptions_from f cmd spec (i + 2) (used(ToUpper x := True))
             (validateOptionValue (ToUpper x) os (Arguments cmd ! (i + 1))
                (checkConflicts cmd (ToUpper x) used (Conflicts os) r))"
    using assms(4) by (subst validateOptions_from.simps) simp
next
  assume eq: "i + 1 = length (Arguments cmd)"
  then have b: "validateOptions_body f cmd spec i used r =
      (i, used(ToUpper x := True),
       addSemanticError
             (''Option '' @ [CHR 0x27] @ ToUpper x @ [CHR 0x27] @ '' requires a value'')
             (Command cmd) ''MISSING_OPTION_VALUE''
             (checkConflicts cmd (ToUpper x) used (Conflicts os) r))"
    using assms by (simp add: validateOptions_body_def Let_def)
  have e: "validateOptions_from f cmd spec (i + 1) u q = q" for u q
    using eq by (subst validateOptions_from.simps) simp
  show "validateOptions_from f cmd spec i used r =
           addSemanticError
             (''Option '' @ [CHR 0x27] @ ToUpper x @ [CHR 0x27] @ '' requires a value'')
             (Command cmd) ''MISSING_OPTION_VALUE''
             (checkConflicts cmd (ToUpper x) used (Conflicts os) r)"
    using assms(4) b e by (subst validateOptions_from.simps) simp
qed


lemma ValidateCommand_scan_fields:
  assumes "commands a (ToUpper (Command cmd)) = Some spec"
  shows "\<exists>r3. list_all (\<lambda>e. err_Type e \<in> {''INSUFFICIENT_ARGS'', ''EXCESSIVE_ARGS'',
                                          ''TYPE_MISMATCH''}) (Errors r3)
            \<and> Warnings r3 = []
            \<and> Errors (ValidateCommand f a cmd) = Errors (validateOptions f cmd spec r3)
            \<and> Warnings (ValidateCommand f a cmd) = Warnings (validateOptions f cmd spec r3)
            \<and> Valid (ValidateCommand f a cmd) = Valid (validateOptions f cmd spec r3)"
proof -
  define r0 where "r0 = \<lparr>Valid = True, Errors = [], Warnings = [], CommandInfo = Map.empty\<rparr>"
  define n where "n = int (length (Arguments cmd))"
  define r1 where "r1 = (if n < MinArgs spec then
                       addSemanticError
                         (''Too few arguments. Expected at least '' @ fmt_d (MinArgs spec)
                            @ '', got '' @ fmt_d n)
                         (ToUpper (Command cmd)) ''INSUFFICIENT_ARGS'' r0
                     else r0)"
  define r2 where "r2 = (if MaxArgs spec \<noteq> - 1 \<and> n > MaxArgs spec then
                       addSemanticError
                         (''Too many arguments. Expected at most '' @ fmt_d (MaxArgs spec)
                            @ '', got '' @ fmt_d n)
                         (ToUpper (Command cmd)) ''EXCESSIVE_ARGS'' r1
                     else r1)"
  define r3 where "r3 = validateArgumentTypes cmd spec r2"
  have f: "Errors (ValidateCommand f a cmd) = Errors (validateOptions f cmd spec r3)"
       "Warnings (ValidateCommand f a cmd) = Warnings (validateOptions f cmd spec r3)"
       "Valid (ValidateCommand f a cmd) = Valid (validateOptions f cmd spec r3)"
    using assms
    by (simp_all add: ValidateCommand_def Let_def r3_def r2_def r1_def r0_def n_def)
  have e2: "list_all (\<lambda>e. err_Type e \<in> {''INSUFFICIENT_ARGS'', ''EXCESSIVE_ARGS'',
                                          ''TYPE_MISMATCH''}) (Errors r2)"
    and w2: "Warnings r2 = []"
    by (simp_all add: r2_def r1_def r0_def)
  obtain tes where tes: "Errors r3 = Errors r2 @ tes"
      "list_all2 (names_argument cmd) tes (mismatches cmd spec 0)"
      "Warnings r3 = Warnings r2"
    unfolding r3_def validateArgumentTypes_def
    using validateArgumentTypes_from_spec[of cmd spec 0 r2] by blast
  have "list_all (\<lambda>e. err_Type e \<in> {''INSUFFICIENT_ARGS'', ''EXCESSIVE_ARGS'',
                                          ''TYPE_MISMATCH''}) tes"
    unfolding list_all_iff using names_argument_type[OF tes(2)] by simp
  with e2 tes(1) have "list_all (\<lambda>e. err_Type e \<in> {''INSUFFICIENT_ARGS'', ''EXCESSIVE_ARGS'',
                                          ''TYPE_MISMATCH''}) (Errors r3)"
    by simp
  with f w2 tes(3) show ?thesis
    by (intro exI[of _ r3]) simp
qed

text \<open>
  C5. For a command with a specification, when the option scan reaches (at position \<open>i\<close>)
  a keyword option declared with \<open>HasValue\<close>: the result of \<open>ValidateCommand\<close> is that of
  the loop of \<open>validateOptions\<close> passing position \<open>i\<close>, started on a result that holds
  only argument-count and type errors. If the option is the last argument, the loop ends
  there with a \<open>MISSING_OPTION_VALUE\<close> error, which is in the result. Otherwise the loop
  goes on at \<open>i + 2\<close> from the result of \<open>validateOptionValue\<close> on the next argument: the
  scan never reaches position \<open>i + 1\<close>; the value check adds exactly the errors of
  \<open>option_value_error_kinds\<close> (\<open>OPTION_TYPE_MISMATCH\<close> for a value of an integer option
  that is not an integer, \<open>INVALID_VALUE_RANGE\<close> for \<open>EX\<close> or \<open>PX\<close> with an integer that is
  not positive, nothing otherwise) and the warnings of \<open>option_value_warnings\<close>, and these
  are in the result.
\<close>

theorem valued_option_scan:
  assumes "commands a (ToUpper (Command cmd)) = Some spec"
    and "i \<in> set (validateOptions_positions f cmd spec)"
    and "Arguments cmd ! i = KeywordExpression x"
    and "Options spec (ToUpper x) = Some os" and "HasValue os"
  shows "(\<exists>r3 ui ri.
            list_all (\<lambda>e. err_Type e \<in> {''INSUFFICIENT_ARGS'', ''EXCESSIVE_ARGS'',
                                          ''TYPE_MISMATCH''}) (Errors r3)
          \<and> Warnings r3 = []
          \<and> Errors (ValidateCommand f a cmd) = Errors (validateOptions f cmd spec r3)
          \<and> Warnings (ValidateCommand f a cmd) = Warnings (validateOptions f cmd spec r3)
          \<and> Valid (ValidateCommand f a cmd) = Valid (validateOptions f cmd spec r3)
          \<and> validateOptions f cmd spec r3 = validateOptions_from f cmd spec i ui ri)
       \<and> (i + 1 = length (Arguments cmd) \<longrightarrow>
            validateOptions_from f cmd spec i used r =
              addSemanticError
                (''Option '' @ [CHR 0x27] @ ToUpper x @ [CHR 0x27] @ '' requires a value'')
                (Command cmd) ''MISSING_OPTION_VALUE''
                (checkConflicts cmd (ToUpper x) used (Conflicts os) r)
          \<and> \<lparr>Message = ''Option '' @ [CHR 0x27] @ ToUpper x @ [CHR 0x27] @ '' requires a value'',
             err_Command = Command cmd, err_Position = 0, err_Type = ''MISSING_OPTION_VALUE''\<rparr>
              \<in> set (Errors (ValidateCommand f a cmd)))
       \<and> (i + 1 < length (Arguments cmd) \<longrightarrow>
            validateOptions_from f cmd spec i used r =
              validateOptions_from f cmd spec (i + 2) (used(ToUpper x := True))
                (validateOptionValue (ToUpper x) os (Arguments cmd ! (i + 1))
                   (checkConflicts cmd (ToUpper x) used (Conflicts os) r))
          \<and> map err_Type (Errors (validateOptionValue (ToUpper x) os (Arguments cmd ! (i + 1)) r))
              = map err_Type (Errors r)
                @ option_value_error_kinds (ToUpper x) os (Arguments cmd ! (i + 1))
          \<and> Warnings (validateOptionValue (ToUpper x) os (Arguments cmd ! (i + 1)) r)
              = Warnings r @ option_value_warnings (ToUpper x) os (Arguments cmd ! (i + 1))
          \<and> Valid (validateOptionValue (ToUpper x) os (Arguments cmd ! (i + 1)) r)
              = (Valid r \<and> option_value_error_kinds (ToUpper x) os (Arguments cmd ! (i + 1)) = [])
          \<and> CommandInfo (validateOptionValue (ToUpper x) os (Arguments cmd ! (i + 1)) r)
              = CommandInfo r
          \<and> i + 1 \<notin> set (validateOptions_positions f cmd spec)
          \<and> set (option_value_error_kinds (ToUpper x) os (Arguments cmd ! (i + 1)))
              \<subseteq> err_Type ` set (Errors (ValidateCommand f a cmd))
          \<and> set (option_value_warnings (ToUpper x) os (Arguments cmd ! (i + 1)))
              \<subseteq> set (Warnings (ValidateCommand f a cmd)))"
proof -
  obtain r3 where r3p:
      "list_all (\<lambda>e. err_Type e \<in> {''INSUFFICIENT_ARGS'', ''EXCESSIVE_ARGS'',
                                          ''TYPE_MISMATCH''}) (Errors r3)"
      "Warnings r3 = []"
      "Errors (ValidateCommand f a cmd) = Errors (validateOptions f cmd spec r3)"
      "Warnings (ValidateCommand f a cmd) = Warnings (validateOptions f cmd spec r3)"
      "Valid (ValidateCommand f a cmd) = Valid (validateOptions f cmd spec r3)"
    using ValidateCommand_scan_fields[OF assms(1)] by blast
  have r3: "Errors (ValidateCommand f a cmd)
         = Errors (validateOptions_from f cmd spec 0 (\<lambda>name. False) r3)"
      "Warnings (ValidateCommand f a cmd)
         = Warnings (validateOptions_from f cmd spec 0 (\<lambda>name. False) r3)"
    using r3p(3,4) by (simp_all add: validateOptions_def)
  have pos: "validateOptions_positions f cmd spec
               = validateOptions_trace f cmd spec 0 (\<lambda>name. False) r3"
    unfolding validateOptions_positions_def by (rule validateOptions_trace_indep)
  have lt: "i < length (Arguments cmd)"
    using validateOptions_trace_bounds[OF assms(2)[unfolded pos]] by simp
  from validateOptions_trace_reach[OF assms(2)[unfolded pos]]
  obtain ui ri pre where re:
      "validateOptions_from f cmd spec 0 (\<lambda>name. False) r3
         = validateOptions_from f cmd spec i ui ri"
      "validateOptions_trace f cmd spec 0 (\<lambda>name. False) r3
         = pre @ validateOptions_trace f cmd spec i ui ri"
      "\<forall>k \<in> set pre. k < i"
    by blast
  have tie: "\<exists>r3 ui ri.
            list_all (\<lambda>e. err_Type e \<in> {''INSUFFICIENT_ARGS'', ''EXCESSIVE_ARGS'',
                                          ''TYPE_MISMATCH''}) (Errors r3)
          \<and> Warnings r3 = []
          \<and> Errors (ValidateCommand f a cmd) = Errors (validateOptions f cmd spec r3)
          \<and> Warnings (ValidateCommand f a cmd) = Warnings (validateOptions f cmd spec r3)
          \<and> Valid (ValidateCommand f a cmd) = Valid (validateOptions f cmd spec r3)
          \<and> validateOptions f cmd spec r3 = validateOptions_from f cmd spec i ui ri"
    using r3p re(1)
    by (intro exI[of _ r3] exI[of _ ui] exI[of _ ri]) (simp add: validateOptions_def)
  note step = validateOptions_from_valued_step[OF assms(3,4,5) lt]
  have missing: "\<lparr>Message = ''Option '' @ [CHR 0x27] @ ToUpper x @ [CHR 0x27]
                     @ '' requires a value'',
             err_Command = Command cmd, err_Position = 0, err_Type = ''MISSING_OPTION_VALUE''\<rparr>
              \<in> set (Errors (ValidateCommand f a cmd))"
    if "i + 1 = length (Arguments cmd)"
    unfolding r3 re(1) step(2)[OF that] by simp
  have valued: "i + 1 \<notin> set (validateOptions_positions f cmd spec)
          \<and> set (option_value_error_kinds (ToUpper x) os (Arguments cmd ! (i + 1)))
              \<subseteq> err_Type ` set (Errors (ValidateCommand f a cmd))
          \<and> set (option_value_warnings (ToUpper x) os (Arguments cmd ! (i + 1)))
              \<subseteq> set (Warnings (ValidateCommand f a cmd))"
    if l: "i + 1 < length (Arguments cmd)"
  proof -
    define rc where "rc = checkConflicts cmd (ToUpper x) ui (Conflicts os) ri"
    define rv where "rv = validateOptionValue (ToUpper x) os (Arguments cmd ! (i + 1)) rc"
    have fin: "validateOptions_from f cmd spec 0 (\<lambda>name. False) r3
                 = validateOptions_from f cmd spec (i + 2) (ui(ToUpper x := True)) rv"
      unfolding re(1) rv_def rc_def by (rule step(1)[OF l])
    have g: "grows rv (validateOptions_from f cmd spec 0 (\<lambda>name. False) r3)"
      unfolding fin by (rule validateOptions_from_grows)
    have b: "validateOptions_body f cmd spec i ui ri = (i + 1, ui(ToUpper x := True), rv)"
      using assms(3,4,5) l by (simp add: validateOptions_body_def Let_def rv_def rc_def)
    have tr: "validateOptions_trace f cmd spec i ui ri
                = i # validateOptions_trace f cmd spec (i + 2) (ui(ToUpper x := True)) rv"
      using lt b by (subst validateOptions_trace.simps) simp
    have "i + 1 \<notin> set (validateOptions_trace f cmd spec (i + 2) (ui(ToUpper x := True)) rv)"
      using validateOptions_trace_bounds[of "i + 1" f cmd spec "i + 2" "ui(ToUpper x := True)" rv]
      by auto
    then have skip: "i + 1 \<notin> set (validateOptions_positions f cmd spec)"
      unfolding pos re(2) tr using re(3) by auto
    have "set (option_value_error_kinds (ToUpper x) os (Arguments cmd ! (i + 1)))
            \<subseteq> set (map err_Type (Errors rv))"
      unfolding rv_def validateOptionValue_exact(1) by simp
    then have "set (option_value_error_kinds (ToUpper x) os (Arguments cmd ! (i + 1)))
            \<subseteq> err_Type ` set (Errors rv)"
      by simp
    then have e: "set (option_value_error_kinds (ToUpper x) os (Arguments cmd ! (i + 1)))
              \<subseteq> err_Type ` set (Errors (ValidateCommand f a cmd))"
      unfolding r3 using grows_Error_types[OF g] by (rule subset_trans[OF _ subsetI])
    have "set (option_value_warnings (ToUpper x) os (Arguments cmd ! (i + 1)))
            \<subseteq> set (Warnings rv)"
      unfolding rv_def validateOptionValue_exact(2) by simp
    then have w: "set (option_value_warnings (ToUpper x) os (Arguments cmd ! (i + 1)))
              \<subseteq> set (Warnings (ValidateCommand f a cmd))"
      unfolding r3 using grows_Warnings[OF g] by (rule subset_trans[OF _ subsetI])
    from skip e w show ?thesis by simp
  qed
  show ?thesis
  proof (intro conjI impI)
    show "\<exists>r3 ui ri.
            list_all (\<lambda>e. err_Type e \<in> {''INSUFFICIENT_ARGS'', ''EXCESSIVE_ARGS'',
                                          ''TYPE_MISMATCH''}) (Errors r3)
          \<and> Warnings r3 = []
          \<and> Errors (ValidateCommand f a cmd) = Errors (validateOptions f cmd spec r3)
          \<and> Warnings (ValidateCommand f a cmd) = Warnings (validateOptions f cmd spec r3)
          \<and> Valid (ValidateCommand f a cmd) = Valid (validateOptions f cmd spec r3)
          \<and> validateOptions f cmd spec r3 = validateOptions_from f cmd spec i ui ri"
      by (rule tie)
  qed (use missing valued step validateOptionValue_exact in simp_all)
qed

theorem valued_option_scan_witness:
  "\<lparr>Message = ''Option '' @ [CHR 0x27] @ ''EX'' @ [CHR 0x27] @ '' requires a value'',
     err_Command = ''SET'', err_Position = 0, err_Type = ''MISSING_OPTION_VALUE''\<rparr>
     \<in> set (Errors (ValidateCommand (\<lambda>s. s) New_Analyzer
          \<lparr>Command = ''SET'',
           Arguments = [Identifier ''key'', StringLiteral ''value'',
                        KeywordExpression ''EX'']\<rparr>))
   \<and> 3 \<notin> set (validateOptions_positions (\<lambda>s. s)
          \<lparr>Command = ''SET'',
           Arguments = [Identifier ''key'', StringLiteral ''value'', KeywordExpression ''EX'',
                        IntegerLiteral (- 60)]\<rparr>
          (the (initializeCommands ''SET'')))
   \<and> ''INVALID_VALUE_RANGE'' \<in> err_Type ` set (Errors (ValidateCommand (\<lambda>s. s) New_Analyzer
          \<lparr>Command = ''SET'',
           Arguments = [Identifier ''key'', StringLiteral ''value'', KeywordExpression ''EX'',
                        IntegerLiteral (- 60)]\<rparr>))
   \<and> \<not> Valid (ValidateCommand (\<lambda>s. s) New_Analyzer
          \<lparr>Command = ''SET'',
           Arguments = [Identifier ''key'', StringLiteral ''value'', KeywordExpression ''EX'',
                        IntegerLiteral (- 60)]\<rparr>)
   \<and> Valid (ValidateCommand (\<lambda>s. s) New_Analyzer
          \<lparr>Command = ''SET'',
           Arguments = [Identifier ''key'', StringLiteral ''value'', KeywordExpression ''EX'',
                        IntegerLiteral 60]\<rparr>)
   \<and> Errors (ValidateCommand (\<lambda>s. s) New_Analyzer
          \<lparr>Command = ''SET'',
           Arguments = [Identifier ''key'', StringLiteral ''value'', KeywordExpression ''EX'',
                        IntegerLiteral 60]\<rparr>) = []"
proof -
  define spec where "spec = the (initializeCommands ''SET'')"
  define se where "se = the (Options spec ''EX'')"
  define c1 where "c1 = \<lparr>Command = ''SET'',
           Arguments = [Identifier ''key'', StringLiteral ''value'', KeywordExpression ''EX'']\<rparr>"
  define c2 where "c2 = \<lparr>Command = ''SET'',
           Arguments = [Identifier ''key'', StringLiteral ''value'', KeywordExpression ''EX'',
                        IntegerLiteral (- 60)]\<rparr>"
  have u: "ToUpper ''SET'' = ''SET''" "ToUpper ''EX'' = ''EX''"
    by (simp_all add: ToUpper_def upper_byte_def)
  have k1: "commands New_Analyzer (ToUpper (Command c1)) = Some spec"
    and k2: "commands New_Analyzer (ToUpper (Command c2)) = Some spec"
    by (simp_all add: c1_def c2_def u spec_def New_Analyzer_def initializeCommands_def)
  have oe: "Options spec (ToUpper ''EX'') = Some se"
    by (simp add: u se_def spec_def initializeCommands_def)
  have hv: "HasValue se" and vt: "ValueType se = ''integer''"
    by (simp_all add: se_def spec_def initializeCommands_def)
  have p1: "validateOptions_positions (\<lambda>s. s) c1 spec = [0, 1, 2]"
    and p2: "validateOptions_positions (\<lambda>s. s) c2 spec = [0, 1, 2]"
    unfolding c1_def c2_def spec_def by code_simp+
  have i1: "2 \<in> set (validateOptions_positions (\<lambda>s. s) c1 spec)"
    and i2: "2 \<in> set (validateOptions_positions (\<lambda>s. s) c2 spec)"
    unfolding p1 p2 by simp_all
  have a1: "Arguments c1 ! 2 = KeywordExpression ''EX''"
    and a2: "Arguments c2 ! 2 = KeywordExpression ''EX''"
    by (simp_all add: c1_def c2_def)
  have v2: "Arguments c2 ! 3 = IntegerLiteral (- 60)" "length (Arguments c2) = 4"
      "length (Arguments c1) = 3" "Command c1 = ''SET''"
    by (simp_all add: c1_def c2_def)
  have ev: "\<not> Valid (ValidateCommand (\<lambda>s. s) New_Analyzer
          \<lparr>Command = ''SET'',
           Arguments = [Identifier ''key'', StringLiteral ''value'', KeywordExpression ''EX'',
                        IntegerLiteral (- 60)]\<rparr>)"
     "Valid (ValidateCommand (\<lambda>s. s) New_Analyzer
          \<lparr>Command = ''SET'',
           Arguments = [Identifier ''key'', StringLiteral ''value'', KeywordExpression ''EX'',
                        IntegerLiteral 60]\<rparr>)"
     "Errors (ValidateCommand (\<lambda>s. s) New_Analyzer
          \<lparr>Command = ''SET'',
           Arguments = [Identifier ''key'', StringLiteral ''value'', KeywordExpression ''EX'',
                        IntegerLiteral 60]\<rparr>) = []"
    by code_simp+
  from valued_option_scan[OF k1 i1 a1 oe hv, THEN conjunct2]
       valued_option_scan[OF k2 i2 a2 oe hv, THEN conjunct2]
  show ?thesis
    unfolding c1_def[symmetric] c2_def[symmetric] spec_def[symmetric]
    using ev[folded c2_def]
    by (simp add: v2 vt u option_value_error_kinds_def)
qed

end
